theory Spec2Isabelle
  imports Main "HOL-Library.Char_ord" "HOL-Library.List_Lexorder" "HOL-Library.Multiset"
    "HOL-Library.Word"
begin

section \<open>Go values\<close>

text \<open>
  A Go \<open>string\<close> and a Go \<open>[]byte\<close> are byte sequences: both are \<open>string\<close> here
  (a \<open>char\<close> is one byte). The order on strings is the bytewise lexicographic one, the
  order of Go's \<open><\<close> on strings.
\<close>

type_synonym bytes = string

text \<open>
  A value of type \<open>interface{}\<close> as the services receive it. The first six constructors
  are what a decoded JSON document holds (\<open>nil\<close>, \<open>bool\<close>, \<open>float64\<close>, \<open>string\<close>,
  \<open>[]interface{}\<close>, \<open>map[string]interface{}\<close>). A number is kept as the literal
  \<open>encoding/json\<close> writes for it. A map is the list of its entries in some iteration order;
  a Go map holds a key once (\<open>wf_gval\<close>). \<open>GOther\<close> stands for every value
  \<open>json.Marshal\<close> rejects (a channel, a function, a NaN), named by a tag.
\<close>

datatype gval = GNil | GBool bool | GNum string | GStr string
  | GArr "gval list" | GObj "(string \<times> gval) list" | GOther string

fun wf_gval :: "gval \<Rightarrow> bool" where
  "wf_gval (GArr xs) = list_all wf_gval xs"
| "wf_gval (GObj kvs) = (distinct (map fst kvs) \<and> list_all (\<lambda>kv. wf_gval (snd kv)) kvs)"
| "wf_gval _ = True"

text \<open>A JSON-like value: no part of it is a value that JSON cannot express.\<close>

fun json_like :: "gval \<Rightarrow> bool" where
  "json_like (GArr xs) = list_all json_like xs"
| "json_like (GObj kvs) = list_all (\<lambda>kv. json_like (snd kv)) kvs"
| "json_like (GOther t) = False"
| "json_like _ = True"

text \<open>
  Structural equality of two values: equal scalars, arrays equal element by element,
  objects with the same keys and structurally equal values under each key. The order of
  an object's entries plays no part.
\<close>

fun struct_eq :: "gval \<Rightarrow> gval \<Rightarrow> bool" where
  "struct_eq GNil GNil = True"
| "struct_eq (GBool a) (GBool b) = (a = b)"
| "struct_eq (GNum a) (GNum b) = (a = b)"
| "struct_eq (GStr a) (GStr b) = (a = b)"
| "struct_eq (GArr xs) (GArr ys) = list_all2 struct_eq xs ys"
| "struct_eq (GObj kvs) (GObj kvs') =
     (set (map fst kvs) = set (map fst kvs') \<and>
      (\<forall>(k, v) \<in> set kvs. \<forall>(k', v') \<in> set kvs'. k = k' \<longrightarrow> struct_eq v v'))"
| "struct_eq (GOther a) (GOther b) = (a = b)"
| "struct_eq _ _ = False"

section \<open>The platform the services call\<close>

text \<open>
  The functions the code calls and whose text is not part of the repository: of Go's
  standard library, SHA-256, the JSON encoding of a string, the \<open>%v\<close> verb of
  \<open>fmt.Sprintf\<close> and the lower-case table of package \<open>unicode\<close> beyond ASCII; of
  PostgreSQL, the text \<open>jsonb\<close> prints for a number, an array or an object; of package
  \<open>uuid\<close>, the text of an identifier. Every
  definition below takes them as a parameter, so every theorem holds for whatever they
  compute.
\<close>

record platform =
  sha256 :: "bytes \<Rightarrow> bytes"
  json_string :: "string \<Rightarrow> string"
  sprintf_v :: "gval \<Rightarrow> string"
  lower_table :: "nat \<Rightarrow> nat"
  jsonb_out :: "gval \<Rightarrow> string"
  uuid_string :: "nat \<Rightarrow> string"

fun join :: "string \<Rightarrow> string list \<Rightarrow> string" where
  "join sep [] = []"
| "join sep [x] = x"
| "join sep (x # y # ys) = x @ sep @ join sep (y # ys)"

text \<open>
  \<open>json.Marshal\<close> on a \<open>gval\<close>: an object's entries are written in the order of their
  keys; a value JSON cannot express is an error (\<open>None\<close>), also deep inside.
\<close>

fun marshal :: "(string \<Rightarrow> string) \<Rightarrow> gval \<Rightarrow> string option" where
  "marshal q GNil = Some ''null''"
| "marshal q (GBool b) = Some (if b then ''true'' else ''false'')"
| "marshal q (GNum n) = Some n"
| "marshal q (GStr s) = Some (q s)"
| "marshal q (GArr xs) =
     map_option (\<lambda>es. ''['' @ join '','' es @ '']'') (those (map (marshal q) xs))"
| "marshal q (GObj kvs) =
     map_option
       (\<lambda>es. ''{'' @ join '','' (map (\<lambda>(k, e). q k @ '':'' @ e) (sort_key fst es)) @ ''}'')
       (those (map (\<lambda>(k, v). map_option (Pair k) (marshal q v)) kvs))"
| "marshal q (GOther t) = None"

section \<open>HashService\<close>

definition hex_digit :: "nat \<Rightarrow> char" where
  "hex_digit n = ''0123456789abcdef'' ! (n mod 16)"

definition hex_byte :: "char \<Rightarrow> string" where
  "hex_byte c = [hex_digit (of_char c div 16), hex_digit (of_char c mod 16)]"

text \<open>\<open>hex.EncodeToString\<close>: two lowercase hexadecimal digits for each byte.\<close>

definition EncodeToString :: "bytes \<Rightarrow> string" where
  "EncodeToString bs = concat (map hex_byte bs)"

definition ComputeContentHash :: "platform \<Rightarrow> bytes \<Rightarrow> string" where
  "ComputeContentHash sl content = EncodeToString (sha256 sl content)"

text \<open>
  \<open>ComputeInputHash\<close>: the content hash of the JSON encoding of the input; when the
  encoding fails, of its \<open>%v\<close> text.
\<close>

definition ComputeInputHash :: "platform \<Rightarrow> gval \<Rightarrow> string" where
  "ComputeInputHash sl input =
     (case marshal (json_string sl) input of
        Some data \<Rightarrow> ComputeContentHash sl data
      | None \<Rightarrow> ComputeContentHash sl (sprintf_v sl input))"

definition is_hex64 :: "string \<Rightarrow> bool" where
  "is_hex64 h = (length h = 64 \<and> list_all (\<lambda>c. c \<in> set ''0123456789abcdef'') h)"

section \<open>Floating point\<close>

text \<open>
  A \<open>float32\<close> is its 32 bits and a \<open>float64\<close> its 64 bits. The arithmetic on them
  (the hardware's, package \<open>math\<close>'s, the conversion of a constant of the source text)
  is a parameter: no theorem below depends on what it computes. \<open>cosine\<close> is the score
  the vector index gives a stored vector against a query vector.
\<close>

type_synonym float32 = "32 word"
type_synonym float64 = "64 word"

record floatops =
  f32_lit :: "string \<Rightarrow> float32"
  f32_of_byte :: "char \<Rightarrow> float32"
  f32_add :: "float32 \<Rightarrow> float32 \<Rightarrow> float32"
  f32_mul :: "float32 \<Rightarrow> float32 \<Rightarrow> float32"
  f32_div :: "float32 \<Rightarrow> float32 \<Rightarrow> float32"
  f32_eq :: "float32 \<Rightarrow> float32 \<Rightarrow> bool"
  f32_lt :: "float32 \<Rightarrow> float32 \<Rightarrow> bool"
  f32_of_f64 :: "float64 \<Rightarrow> float32"
  f64_of_f32 :: "float32 \<Rightarrow> float64"
  f64_lit :: "string \<Rightarrow> float64"
  f64_of_nat :: "nat \<Rightarrow> float64"
  f64_add :: "float64 \<Rightarrow> float64 \<Rightarrow> float64"
  f64_sub :: "float64 \<Rightarrow> float64 \<Rightarrow> float64"
  f64_mul :: "float64 \<Rightarrow> float64 \<Rightarrow> float64"
  f64_div :: "float64 \<Rightarrow> float64 \<Rightarrow> float64"
  f64_sin :: "float64 \<Rightarrow> float64"
  f64_sqrt :: "float64 \<Rightarrow> float64"
  cosine :: "float32 list \<Rightarrow> float32 list \<Rightarrow> float32"

section \<open>Domain\<close>

text \<open>
  A \<open>uuid.UUID\<close> is a number, \<open>uuid.Nil\<close> is 0. A \<open>time.Time\<close> is a number, the zero
  time is 0. A \<open>map[string]interface{}\<close> is the list of its entries; the nil map and the
  empty map are both \<open>[]\<close>. A nil slice and an empty slice are both \<open>[]\<close>.
\<close>

type_synonym uuid = nat
type_synonym timestamp = nat
type_synonym gmap = "(string \<times> gval) list"

definition uuid_Nil :: uuid where
  "uuid_Nil = 0"

record artifact =
  ID :: uuid
  Type :: string
  ContentHash :: string
  Content :: bytes
  Embedding :: "float32 list"
  Dependencies :: "uuid list"
  Metadata :: gmap
  CreatedAt :: timestamp
  UpdatedAt :: timestamp
  Stale :: bool

definition artifact_zero :: artifact where
  "artifact_zero =
     \<lparr> ID = uuid_Nil, Type = [], ContentHash = [], Content = [], Embedding = [],
       Dependencies = [], Metadata = [], CreatedAt = 0, UpdatedAt = 0, Stale = False \<rparr>"

record lookup_result =
  Artifact :: artifact
  Score :: float32

record lookup_options =
  Query :: string
  TopK :: int
  MinScore :: float32
  ArtifactType :: string
  IncludeStale :: bool
  IncludeContent :: bool
  IncludeEmbedding :: bool

record publish_response =
  Published :: "uuid list"
  Skipped :: "uuid list"

datatype step_status = StepPending | StepRunning | StepCompleted | StepFailed

record workflow_step =
  StepID :: uuid
  SessionID :: uuid
  StepType :: string
  ArtifactID :: uuid
  InputHash :: string
  OutputHash :: string
  StepMetadata :: gmap
  StepCreatedAt :: timestamp
  CompletedAt :: "timestamp option"
  Status :: step_status

datatype session_status = SessionActive | SessionCompleted | SessionFailed

record workflow_session =
  SessID :: uuid
  Goal :: string
  Context :: gmap
  Steps :: "workflow_step list"
  SessCreatedAt :: timestamp
  SessUpdatedAt :: timestamp
  SessStatus :: session_status

record step_request =
  ReqSessionID :: uuid
  ReqStepType :: string
  Input :: gval
  ReqMetadata :: gmap

record step_response =
  Step :: workflow_step
  RespArtifact :: "artifact option"
  Cached :: bool

record lookup_request =
  LookupSessionID :: uuid
  LookupStepType :: string
  LookupInput :: gval
  LookupTopK :: int

record step_result =
  ResStep :: workflow_step
  ResArtifact :: "artifact option"
  ResScore :: float32

section \<open>Errors, the environment of a call, the stores\<close>

text \<open>
  Every call a service makes to a repository, to the vector index or to the embedding
  provider can fail (a lost connection, a violated constraint of the schema). \<open>fails\<close> of
  the environment says which calls fail during one service call: a call is named by the
  method and by its place in the loops of the service (\<open>[i]\<close> for the \<open>i\<close>-th item,
  \<open>[i, j]\<close> for the \<open>j\<close>-th dependency of the \<open>i\<close>-th item). The environment also holds
  what the service reads from outside: the identifiers \<open>uuid.New()\<close> returns, the
  readings of \<open>time.Now()\<close>, the \<open>NOW()\<close> of the database and the answer of the configured
  embedding provider.
\<close>

datatype call =
    ArtifactStore | ArtifactGetByID | ArtifactGetByContentHash | ArtifactStoreDependency
  | ArtifactMarkStaleBySourceURL | VectorListCollections | VectorCreateCollection
  | VectorUpsert | VectorQuery | WorkflowStoreSession | WorkflowGetSession
  | WorkflowUpdateSession | WorkflowStoreStep | WorkflowUpdateStep
  | WorkflowGetStepsBySession | WorkflowFindStepByInputHash | WorkflowFindSimilarSteps
  | EmbeddingGenerate

datatype error =
    Failure call "nat list"
  | MarshalError
  | Errorf string
  | Wrap string error

record env =
  new_uuid :: "nat \<Rightarrow> uuid"
  now :: "nat \<Rightarrow> timestamp"
  db_now :: timestamp
  fails :: "call \<Rightarrow> nat list \<Rightarrow> bool"
  embedding_provider :: "string \<Rightarrow> float32 list option"

record point =
  pid :: uuid
  vector :: "float32 list"
  payload :: gmap

text \<open>
  The tables of the database, each the list of its rows, and the collection of the
  vector index. A row of \<open>artifacts\<close> has no embedding and no dependencies (the table
  has no such columns); a row of \<open>workflow_sessions\<close> has no steps.
\<close>

record store =
  artifacts :: "artifact list"
  artifact_dependencies :: "(uuid \<times> uuid) list"
  workflow_sessions :: "workflow_session list"
  workflow_steps :: "workflow_step list"
  collection_exists :: bool
  points :: "point list"

section \<open>ArtifactRepository (PostgreSQL)\<close>

definition artifact_row :: "artifact \<Rightarrow> artifact" where
  "artifact_row a = a\<lparr>Embedding := [], Dependencies := []\<rparr>"

text \<open>
  \<open>Store\<close>: \<open>INSERT ... ON CONFLICT (id) DO UPDATE\<close>. On a conflict the row keeps its
  \<open>created_at\<close>, and the trigger of the schema sets \<open>updated_at\<close> to \<open>NOW()\<close>.
\<close>

definition ArtifactRepository_Store ::
  "env \<Rightarrow> platform \<Rightarrow> nat list \<Rightarrow> artifact \<Rightarrow> store \<Rightarrow> error option \<times> store" where
  "ArtifactRepository_Store env pf at a s =
     (case marshal (json_string pf) (GObj (Metadata a)) of
        None \<Rightarrow> (Some MarshalError, s)
      | Some metadataJSON \<Rightarrow>
          if fails env ArtifactStore at then (Some (Failure ArtifactStore at), s)
          else if ID a \<in> set (map ID (artifacts s))
          then (None, s\<lparr>artifacts :=
                  map (\<lambda>r. if ID r = ID a
                            then r\<lparr>Type := Type a, ContentHash := ContentHash a,
                                   Content := Content a, Metadata := Metadata a,
                                   UpdatedAt := db_now env, Stale := Stale a\<rparr>
                            else r)
                      (artifacts s)\<rparr>)
          else (None, s\<lparr>artifacts := artifacts s @ [artifact_row a]\<rparr>))"

definition ArtifactRepository_GetByID ::
  "env \<Rightarrow> nat list \<Rightarrow> uuid \<Rightarrow> store \<Rightarrow> error + artifact option" where
  "ArtifactRepository_GetByID env at aid s =
     (if fails env ArtifactGetByID at then Inl (Failure ArtifactGetByID at)
      else Inr (find (\<lambda>r. ID r = aid) (artifacts s)))"

definition ArtifactRepository_GetByContentHash ::
  "env \<Rightarrow> nat list \<Rightarrow> string \<Rightarrow> store \<Rightarrow> error + artifact option" where
  "ArtifactRepository_GetByContentHash env at hash s =
     (if fails env ArtifactGetByContentHash at then Inl (Failure ArtifactGetByContentHash at)
      else Inr (find (\<lambda>r. ContentHash r = hash) (artifacts s)))"

text \<open>\<open>StoreDependency\<close>: \<open>INSERT ... ON CONFLICT (parent_id, child_id) DO NOTHING\<close>.\<close>

definition ArtifactRepository_StoreDependency ::
  "env \<Rightarrow> nat list \<Rightarrow> uuid \<Rightarrow> uuid \<Rightarrow> store \<Rightarrow> error option \<times> store" where
  "ArtifactRepository_StoreDependency env at parentID childID s =
     (if fails env ArtifactStoreDependency at then (Some (Failure ArtifactStoreDependency at), s)
      else if (parentID, childID) \<in> set (artifact_dependencies s) then (None, s)
      else (None, s\<lparr>artifact_dependencies := artifact_dependencies s @ [(parentID, childID)]\<rparr>))"

text \<open>
  The operator \<open>->>\<close> of \<open>jsonb\<close>: the field of an object as text. An absent field and
  a JSON \<open>null\<close> give SQL \<open>NULL\<close> (\<open>None\<close>), a string gives its characters, every other
  value the text \<open>jsonb\<close> prints for it.
\<close>

fun jsonb_field_text :: "platform \<Rightarrow> gval option \<Rightarrow> string option" where
  "jsonb_field_text pf None = None"
| "jsonb_field_text pf (Some GNil) = None"
| "jsonb_field_text pf (Some (GStr s)) = Some s"
| "jsonb_field_text pf (Some (GBool b)) = Some (if b then ''true'' else ''false'')"
| "jsonb_field_text pf (Some v) = Some (jsonb_out pf v)"

definition source_url_text :: "platform \<Rightarrow> artifact \<Rightarrow> string option" where
  "source_url_text pf r = jsonb_field_text pf (map_of (Metadata r) ''source_url'')"

text \<open>
  \<open>MarkStaleBySourceURL\<close>:
  \<open>UPDATE artifacts SET stale = true, updated_at = NOW() WHERE metadata->>'source_url' = $1\<close>.
\<close>

definition ArtifactRepository_MarkStaleBySourceURL ::
  "env \<Rightarrow> platform \<Rightarrow> nat list \<Rightarrow> string \<Rightarrow> store \<Rightarrow> error option \<times> store" where
  "ArtifactRepository_MarkStaleBySourceURL env pf at sourceURL s =
     (if fails env ArtifactMarkStaleBySourceURL at
      then (Some (Failure ArtifactMarkStaleBySourceURL at), s)
      else (None, s\<lparr>artifacts :=
              map (\<lambda>r. if source_url_text pf r = Some sourceURL
                        then r\<lparr>Stale := True, UpdatedAt := db_now env\<rparr> else r)
                  (artifacts s)\<rparr>))"

section \<open>The vector index\<close>

text \<open>
  A condition of a Qdrant filter as \<open>Search\<close> builds it: \<open>qdrant.NewMatch(key, value)\<close>,
  a keyword match on a payload field.
\<close>

datatype condition = Match string string

record query_points =
  QueryVector :: "float32 list"
  Limit :: nat
  ScoreThreshold :: "float32 option"
  Must :: "condition list option"

record scored_point =
  sp_id :: uuid
  sp_score :: float32
  sp_payload :: gmap

text \<open>
  Modelled from the spec: the Qdrant server, which is not part of the repository. A
  condition holds for a point when the payload field is the given string (equality match
  on string payload fields); the conditions of a filter are combined by logical AND and
  applied before ranking; a point is returned only with a score not below the threshold;
  the points come in descending score, at most \<open>Limit\<close> of them; \<open>upsert\<close> writes the
  point under its id.
\<close>

fun condition_holds :: "gmap \<Rightarrow> condition \<Rightarrow> bool" where
  "condition_holds pl (Match key v) = (map_of pl key = Some (GStr v))"

definition filter_holds :: "condition list option \<Rightarrow> point \<Rightarrow> bool" where
  "filter_holds must p =
     (case must of None \<Rightarrow> True | Some conds \<Rightarrow> list_all (condition_holds (payload p)) conds)"

fun insert_ranked :: "floatops \<Rightarrow> scored_point \<Rightarrow> scored_point list \<Rightarrow> scored_point list" where
  "insert_ranked fo x [] = [x]"
| "insert_ranked fo x (y # ys) =
     (if f32_lt fo (sp_score x) (sp_score y) then y # insert_ranked fo x ys else x # y # ys)"

definition rank :: "floatops \<Rightarrow> scored_point list \<Rightarrow> scored_point list" where
  "rank fo xs = foldr (insert_ranked fo) xs []"

definition qdrant_query :: "floatops \<Rightarrow> query_points \<Rightarrow> point list \<Rightarrow> scored_point list" where
  "qdrant_query fo req pts =
     take (Limit req)
       (rank fo
         (filter (\<lambda>sp. case ScoreThreshold req of
                         None \<Rightarrow> True
                       | Some t \<Rightarrow> \<not> f32_lt fo (sp_score sp) t)
           (map (\<lambda>p. \<lparr> sp_id = pid p, sp_score = cosine fo (QueryVector req) (vector p),
                        sp_payload = payload p \<rparr>)
             (filter (filter_holds (Must req)) pts))))"

definition qdrant_upsert :: "point \<Rightarrow> point list \<Rightarrow> point list" where
  "qdrant_upsert p pts =
     (if pid p \<in> set (map pid pts) then map (\<lambda>x. if pid x = pid p then p else x) pts
      else pts @ [p])"

section \<open>VectorRepository (the Qdrant client)\<close>

definition ensureCollection :: "env \<Rightarrow> nat list \<Rightarrow> store \<Rightarrow> error option \<times> store" where
  "ensureCollection env at s =
     (if fails env VectorListCollections at
      then (Some (Wrap ''failed to list collections'' (Failure VectorListCollections at)), s)
      else if collection_exists s then (None, s)
      else if fails env VectorCreateCollection at
      then (Some (Wrap ''failed to create collection'' (Failure VectorCreateCollection at)), s)
      else (None, s\<lparr>collection_exists := True\<rparr>))"

definition VectorRepository_Store ::
  "env \<Rightarrow> nat list \<Rightarrow> uuid \<Rightarrow> float32 list \<Rightarrow> gmap \<Rightarrow> store \<Rightarrow> error option \<times> store" where
  "VectorRepository_Store env at aid embedding metadata s =
     (case ensureCollection env at s of
        (Some err, s1) \<Rightarrow> (Some err, s1)
      | (None, s1) \<Rightarrow>
          if fails env VectorUpsert at
          then (Some (Wrap ''failed to store vector'' (Failure VectorUpsert at)), s1)
          else (None, s1\<lparr>points :=
                  qdrant_upsert \<lparr> pid = aid, vector = embedding, payload = metadata \<rparr> (points s1)\<rparr>))"

text \<open>
  The conditions \<open>Search\<close> builds from a filter map: one match for each entry whose value
  is a string; an entry with any other value adds nothing.
\<close>

fun filter_conditions :: "gmap \<Rightarrow> condition list" where
  "filter_conditions [] = []"
| "filter_conditions ((key, GStr strValue) # rest) = Match key strValue # filter_conditions rest"
| "filter_conditions ((key, v) # rest) = filter_conditions rest"

definition search_request ::
  "floatops \<Rightarrow> float32 list \<Rightarrow> int \<Rightarrow> float32 \<Rightarrow> gmap \<Rightarrow> query_points" where
  "search_request fo query topK minScore filter_map =
     \<lparr> QueryVector = query,
       Limit = nat (topK mod 2 ^ 64),
       ScoreThreshold = (if f32_lt fo (f32_lit fo ''0'') minScore then Some minScore else None),
       Must = (if length filter_map > 0 \<and> length (filter_conditions filter_map) > 0
               then Some (filter_conditions filter_map) else None) \<rparr>"

text \<open>
  \<open>Search\<close>. Every point of the collection was written by \<open>Store\<close> under a UUID, so no
  result is skipped for its id; the artifact of a result holds the id and the payload.
\<close>

definition VectorRepository_Search ::
  "env \<Rightarrow> floatops \<Rightarrow> float32 list \<Rightarrow> int \<Rightarrow> float32 \<Rightarrow> gmap \<Rightarrow> store \<Rightarrow>
    error + lookup_result list" where
  "VectorRepository_Search env fo query topK minScore filter_map s =
     (if fails env VectorQuery []
      then Inl (Wrap ''failed to search vectors'' (Failure VectorQuery []))
      else Inr (map (\<lambda>sp. \<lparr> Artifact = artifact_zero\<lparr>ID := sp_id sp, Metadata := sp_payload sp\<rparr>,
                              Score = sp_score sp \<rparr>)
                  (qdrant_query fo (search_request fo query topK minScore filter_map) (points s))))"

section \<open>CacheService\<close>

text \<open>The part of \<open>Publish\<close> before the store is read: id, timestamps, content hash.\<close>

definition publish_prepare :: "env \<Rightarrow> platform \<Rightarrow> nat \<Rightarrow> artifact \<Rightarrow> artifact" where
  "publish_prepare env pf i a0 =
     (let a1 = (if ID a0 = uuid_Nil then a0\<lparr>ID := new_uuid env i\<rparr> else a0);
          a2 = (if CreatedAt a1 = 0 then a1\<lparr>CreatedAt := now env (2 * i)\<rparr> else a1);
          a3 = a2\<lparr>UpdatedAt := now env (2 * i + 1)\<rparr>
      in if ContentHash a3 = [] then a3\<lparr>ContentHash := ComputeContentHash pf (Content a3)\<rparr>
         else a3)"

fun store_dependencies ::
  "env \<Rightarrow> nat \<Rightarrow> nat \<Rightarrow> uuid list \<Rightarrow> uuid \<Rightarrow> store \<Rightarrow> error option \<times> store" where
  "store_dependencies env i j [] childID s = (None, s)"
| "store_dependencies env i j (depID # deps) childID s =
     (case ArtifactRepository_StoreDependency env [i, j] depID childID s of
        (Some err, s1) \<Rightarrow> (Some (Wrap ''failed to store dependency'' err), s1)
      | (None, s1) \<Rightarrow> store_dependencies env i (Suc j) deps childID s1)"

fun publish_loop ::
  "env \<Rightarrow> platform \<Rightarrow> nat \<Rightarrow> artifact list \<Rightarrow> uuid list \<Rightarrow> uuid list \<Rightarrow> store \<Rightarrow>
    (error + publish_response) \<times> store" where
  "publish_loop env pf i [] published skipped s =
     (Inr \<lparr> Published = published, Skipped = skipped \<rparr>, s)"
| "publish_loop env pf i (a0 # rest) published skipped s =
     (let a = publish_prepare env pf i a0 in
      case ArtifactRepository_GetByContentHash env [i] (ContentHash a) s of
        Inl err \<Rightarrow> (Inl (Wrap ''failed to check existing artifact'' err), s)
      | Inr (Some existing) \<Rightarrow>
          publish_loop env pf (Suc i) rest published (skipped @ [ID existing]) s
      | Inr None \<Rightarrow>
          (case ArtifactRepository_Store env pf [i] a s of
             (Some err, s1) \<Rightarrow> (Inl (Wrap ''failed to store artifact'' err), s1)
           | (None, s1) \<Rightarrow>
               (case (if length (Embedding a) > 0
                      then VectorRepository_Store env [i] (ID a) (Embedding a) (Metadata a) s1
                      else (None, s1)) of
                  (Some err, s2) \<Rightarrow> (Inl (Wrap ''failed to store vector'' err), s2)
                | (None, s2) \<Rightarrow>
                    (case store_dependencies env i 0 (Dependencies a) (ID a) s2 of
                       (Some err, s3) \<Rightarrow> (Inl err, s3)
                     | (None, s3) \<Rightarrow>
                         publish_loop env pf (Suc i) rest (published @ [ID a]) skipped s3))))"

definition Publish ::
  "env \<Rightarrow> platform \<Rightarrow> artifact list \<Rightarrow> store \<Rightarrow> (error + publish_response) \<times> store" where
  "Publish env pf arts s = publish_loop env pf 0 arts [] [] s"

text \<open>
  \<open>generateSimpleEmbedding\<close>: 1536 numbers, the first ones from the characters of the
  input hash of the text, the others zero.
\<close>

definition generateSimpleEmbedding :: "platform \<Rightarrow> floatops \<Rightarrow> string \<Rightarrow> float32 list" where
  "generateSimpleEmbedding pf fo text =
     (let hash = ComputeInputHash pf (GStr text);
          n = min 1536 (length hash)
      in map (\<lambda>c. f32_div fo (f32_of_byte fo c) (f32_lit fo ''255.0'')) (take n hash)
         @ replicate (1536 - n) 0)"

definition lookup_defaults :: "floatops \<Rightarrow> lookup_options \<Rightarrow> lookup_options" where
  "lookup_defaults fo options =
     (let o1 = (if TopK options = 0 then options\<lparr>TopK := 10\<rparr> else options)
      in if f32_eq fo (MinScore o1) (f32_lit fo ''0'') then o1\<lparr>MinScore := f32_lit fo ''0.85''\<rparr>
         else o1)"

definition lookup_filter :: "lookup_options \<Rightarrow> gmap" where
  "lookup_filter options =
     (if ArtifactType options \<noteq> [] then [(''type'', GStr (ArtifactType options))] else [])
     @ (if \<not> IncludeStale options then [(''stale'', GBool False)] else [])"

fun lookup_enrich ::
  "env \<Rightarrow> lookup_options \<Rightarrow> nat \<Rightarrow> lookup_result list \<Rightarrow> store \<Rightarrow> lookup_result list" where
  "lookup_enrich env options j [] s = []"
| "lookup_enrich env options j (vr # vrs) s =
     (case ArtifactRepository_GetByID env [j] (ID (Artifact vr)) s of
        Inl err \<Rightarrow> lookup_enrich env options (Suc j) vrs s
      | Inr None \<Rightarrow> lookup_enrich env options (Suc j) vrs s
      | Inr (Some artifact) \<Rightarrow>
          (let a1 = (if \<not> IncludeContent options then artifact\<lparr>Content := []\<rparr> else artifact);
               a2 = (if \<not> IncludeEmbedding options then a1\<lparr>Embedding := []\<rparr> else a1)
           in \<lparr> Artifact = a2, Score = Score vr \<rparr> # lookup_enrich env options (Suc j) vrs s))"

definition Lookup ::
  "env \<Rightarrow> platform \<Rightarrow> floatops \<Rightarrow> lookup_options \<Rightarrow> store \<Rightarrow> error + lookup_result list" where
  "Lookup env pf fo options0 s =
     (let options = lookup_defaults fo options0;
          queryEmbedding = generateSimpleEmbedding pf fo (Query options);
          filter_map = lookup_filter options
      in case VectorRepository_Search env fo queryEmbedding (TopK options) (MinScore options)
                filter_map s of
           Inl err \<Rightarrow> Inl (Wrap ''failed to search vectors'' err)
         | Inr vectorResults \<Rightarrow> Inr (lookup_enrich env options 0 vectorResults s))"

definition GetByID :: "env \<Rightarrow> uuid \<Rightarrow> store \<Rightarrow> error + artifact option" where
  "GetByID env aid s = ArtifactRepository_GetByID env [] aid s"

definition Invalidate :: "env \<Rightarrow> platform \<Rightarrow> string \<Rightarrow> store \<Rightarrow> error option \<times> store" where
  "Invalidate env pf sourceURL s =
     (case ArtifactRepository_MarkStaleBySourceURL env pf [] sourceURL s of
        (Some err, s1) \<Rightarrow> (Some (Wrap ''failed to mark artifacts as stale'' err), s1)
      | (None, s1) \<Rightarrow> (None, s1))"

section \<open>WorkflowRepository (PostgreSQL)\<close>

text \<open>
  \<open>StoreSession\<close>: \<open>INSERT ... ON CONFLICT (id) DO UPDATE\<close>; on a conflict the trigger of
  the schema sets \<open>updated_at\<close> to \<open>NOW()\<close>.
\<close>

definition WorkflowRepository_StoreSession ::
  "env \<Rightarrow> platform \<Rightarrow> nat list \<Rightarrow> workflow_session \<Rightarrow> store \<Rightarrow> error option \<times> store" where
  "WorkflowRepository_StoreSession env pf at session s =
     (case marshal (json_string pf) (GObj (Context session)) of
        None \<Rightarrow> (Some MarshalError, s)
      | Some contextJSON \<Rightarrow>
          if fails env WorkflowStoreSession at then (Some (Failure WorkflowStoreSession at), s)
          else if SessID session \<in> set (map SessID (workflow_sessions s))
          then (None, s\<lparr>workflow_sessions :=
                  map (\<lambda>r. if SessID r = SessID session
                            then r\<lparr>Goal := Goal session, Context := Context session,
                                   SessUpdatedAt := db_now env, SessStatus := SessStatus session\<rparr>
                            else r)
                      (workflow_sessions s)\<rparr>)
          else (None, s\<lparr>workflow_sessions := workflow_sessions s @ [session\<lparr>Steps := []\<rparr>]\<rparr>))"

definition WorkflowRepository_GetSession ::
  "env \<Rightarrow> nat list \<Rightarrow> uuid \<Rightarrow> store \<Rightarrow> error + workflow_session option" where
  "WorkflowRepository_GetSession env at sid s =
     (if fails env WorkflowGetSession at then Inl (Failure WorkflowGetSession at)
      else Inr (find (\<lambda>r. SessID r = sid) (workflow_sessions s)))"

text \<open>
  \<open>UpdateSession\<close>: \<open>UPDATE workflow_sessions SET goal, context, updated_at, status WHERE id\<close>;
  the trigger of the schema replaces the \<open>updated_at\<close> sent by \<open>NOW()\<close>.
\<close>

definition WorkflowRepository_UpdateSession ::
  "env \<Rightarrow> platform \<Rightarrow> nat list \<Rightarrow> workflow_session \<Rightarrow> store \<Rightarrow> error option \<times> store" where
  "WorkflowRepository_UpdateSession env pf at session s =
     (case marshal (json_string pf) (GObj (Context session)) of
        None \<Rightarrow> (Some MarshalError, s)
      | Some contextJSON \<Rightarrow>
          if fails env WorkflowUpdateSession at then (Some (Failure WorkflowUpdateSession at), s)
          else (None, s\<lparr>workflow_sessions :=
                  map (\<lambda>r. if SessID r = SessID session
                            then r\<lparr>Goal := Goal session, Context := Context session,
                                   SessUpdatedAt := db_now env, SessStatus := SessStatus session\<rparr>
                            else r)
                      (workflow_sessions s)\<rparr>))"

text \<open>
  \<open>StoreStep\<close>: \<open>INSERT ... ON CONFLICT (id) DO UPDATE SET artifact_id, output_hash,
  metadata, completed_at, status\<close>.
\<close>

definition step_update :: "workflow_step \<Rightarrow> workflow_step \<Rightarrow> workflow_step" where
  "step_update step r =
     r\<lparr>ArtifactID := ArtifactID step, OutputHash := OutputHash step,
       StepMetadata := StepMetadata step, CompletedAt := CompletedAt step,
       Status := Status step\<rparr>"

definition WorkflowRepository_StoreStep ::
  "env \<Rightarrow> platform \<Rightarrow> nat list \<Rightarrow> workflow_step \<Rightarrow> store \<Rightarrow> error option \<times> store" where
  "WorkflowRepository_StoreStep env pf at step s =
     (case marshal (json_string pf) (GObj (StepMetadata step)) of
        None \<Rightarrow> (Some MarshalError, s)
      | Some metadataJSON \<Rightarrow>
          if fails env WorkflowStoreStep at then (Some (Failure WorkflowStoreStep at), s)
          else if StepID step \<in> set (map StepID (workflow_steps s))
          then (None, s\<lparr>workflow_steps :=
                  map (\<lambda>r. if StepID r = StepID step then step_update step r else r)
                      (workflow_steps s)\<rparr>)
          else (None, s\<lparr>workflow_steps := workflow_steps s @ [step]\<rparr>))"

text \<open>
  \<open>UpdateStep\<close>: \<open>UPDATE workflow_steps SET artifact_id, output_hash, metadata,
  completed_at, status WHERE id = $1\<close>.
\<close>

definition WorkflowRepository_UpdateStep ::
  "env \<Rightarrow> platform \<Rightarrow> nat list \<Rightarrow> workflow_step \<Rightarrow> store \<Rightarrow> error option \<times> store" where
  "WorkflowRepository_UpdateStep env pf at step s =
     (case marshal (json_string pf) (GObj (StepMetadata step)) of
        None \<Rightarrow> (Some MarshalError, s)
      | Some metadataJSON \<Rightarrow>
          if fails env WorkflowUpdateStep at then (Some (Failure WorkflowUpdateStep at), s)
          else (None, s\<lparr>workflow_steps :=
                  map (\<lambda>r. if StepID r = StepID step then step_update step r else r)
                      (workflow_steps s)\<rparr>))"

text \<open>The first row of the greatest \<open>created_at\<close>: \<open>ORDER BY created_at DESC LIMIT 1\<close>.\<close>

fun latest_step :: "workflow_step list \<Rightarrow> workflow_step option" where
  "latest_step [] = None"
| "latest_step (r # rs) =
     (case latest_step rs of
        None \<Rightarrow> Some r
      | Some r' \<Rightarrow> if StepCreatedAt r < StepCreatedAt r' then Some r' else Some r)"

definition completed_steps :: "string \<Rightarrow> string \<Rightarrow> store \<Rightarrow> workflow_step list" where
  "completed_steps stepType inputHash s =
     filter (\<lambda>r. StepType r = stepType \<and> InputHash r = inputHash \<and> Status r = StepCompleted)
       (workflow_steps s)"

text \<open>
  \<open>FindStepByInputHash\<close>:
  \<open>WHERE step_type = $1 AND input_hash = $2 AND status = 'completed' ORDER BY created_at
  DESC LIMIT 1\<close>.
\<close>

definition WorkflowRepository_FindStepByInputHash ::
  "env \<Rightarrow> nat list \<Rightarrow> string \<Rightarrow> string \<Rightarrow> store \<Rightarrow> error + workflow_step option" where
  "WorkflowRepository_FindStepByInputHash env at stepType inputHash s =
     (if fails env WorkflowFindStepByInputHash at
      then Inl (Failure WorkflowFindStepByInputHash at)
      else Inr (latest_step (completed_steps stepType inputHash s)))"

text \<open>\<open>GetStepsBySession\<close>: \<open>WHERE session_id = $1 ORDER BY created_at ASC\<close>.\<close>

definition WorkflowRepository_GetStepsBySession ::
  "env \<Rightarrow> nat list \<Rightarrow> uuid \<Rightarrow> store \<Rightarrow> error + workflow_step list" where
  "WorkflowRepository_GetStepsBySession env at sessionID s =
     (if fails env WorkflowGetStepsBySession at then Inl (Failure WorkflowGetStepsBySession at)
      else Inr (sort_key StepCreatedAt
                  (filter (\<lambda>r. SessionID r = sessionID) (workflow_steps s))))"

text \<open>
  \<open>FindSimilarSteps\<close>: the completed steps of the type, the most recent first, at most
  \<open>topK\<close>, each with score 1.0. PostgreSQL rejects a negative \<open>LIMIT\<close>.
\<close>

definition WorkflowRepository_FindSimilarSteps ::
  "env \<Rightarrow> floatops \<Rightarrow> nat list \<Rightarrow> string \<Rightarrow> int \<Rightarrow> store \<Rightarrow> error + step_result list" where
  "WorkflowRepository_FindSimilarSteps env fo at stepType topK s =
     (if fails env WorkflowFindSimilarSteps at \<or> topK < 0
      then Inl (Failure WorkflowFindSimilarSteps at)
      else Inr (map (\<lambda>r. \<lparr> ResStep = r, ResArtifact = None, ResScore = f32_lit fo ''1.0'' \<rparr>)
                  (take (nat topK)
                     (rev (sort_key StepCreatedAt
                        (filter (\<lambda>r. StepType r = stepType \<and> Status r = StepCompleted)
                           (workflow_steps s)))))))"

section \<open>WorkflowService\<close>

definition CreateSession ::
  "env \<Rightarrow> platform \<Rightarrow> string \<Rightarrow> gmap \<Rightarrow> store \<Rightarrow> (error + workflow_session) \<times> store" where
  "CreateSession env pf goal sessionContext s =
     (let session = \<lparr> SessID = new_uuid env 0, Goal = goal, Context = sessionContext,
                       Steps = [], SessCreatedAt = now env 0, SessUpdatedAt = now env 1,
                       SessStatus = SessionActive \<rparr>
      in case WorkflowRepository_StoreSession env pf [] session s of
           (Some err, s1) \<Rightarrow> (Inl (Wrap ''failed to store session'' err), s1)
         | (None, s1) \<Rightarrow> (Inr session, s1))"

definition GetSession :: "env \<Rightarrow> uuid \<Rightarrow> store \<Rightarrow> error + workflow_session" where
  "GetSession env sid s =
     (case WorkflowRepository_GetSession env [] sid s of
        Inl err \<Rightarrow> Inl (Wrap ''failed to get session'' err)
      | Inr None \<Rightarrow> Inl (Errorf ''session not found'')
      | Inr (Some session) \<Rightarrow>
          (case WorkflowRepository_GetStepsBySession env [] sid s of
             Inl err \<Rightarrow> Inl (Wrap ''failed to get steps'' err)
           | Inr steps \<Rightarrow> Inr (session\<lparr>Steps := steps\<rparr>)))"

definition step_artifact_type :: "string \<Rightarrow> string" where
  "step_artifact_type stepType =
     (if stepType = ''scrape'' then ''RAW''
      else if stepType = ''process'' \<or> stepType = ''embed'' then ''DERIVED''
      else if stepType = ''reason'' then ''REASONING''
      else if stepType = ''answer'' then ''ANSWER''
      else ''DERIVED'')"

text \<open>
  \<open>simulateStepExecution\<close>: the artifact is made from the step type and the \<open>%v\<close> text
  of the input; its id is the second identifier drawn in the call.
\<close>

definition simulateStepExecution ::
  "env \<Rightarrow> platform \<Rightarrow> workflow_step \<Rightarrow> gval \<Rightarrow> error + artifact" where
  "simulateStepExecution env pf step input =
     (let content = ''Result of '' @ StepType step @ '' step with input: '' @ sprintf_v pf input
      in case embedding_provider env content of
           None \<Rightarrow> Inl (Wrap ''failed to generate embedding'' (Failure EmbeddingGenerate []))
         | Some embedding \<Rightarrow>
             Inr \<lparr> ID = new_uuid env 1, Type = step_artifact_type (StepType step),
                   ContentHash = ComputeContentHash pf content, Content = content,
                   Embedding = embedding, Dependencies = [],
                   Metadata = [(''step_type'', GStr (StepType step)),
                               (''step_id'', GStr (uuid_string pf (StepID step))),
                               (''session_id'', GStr (uuid_string pf (SessionID step)))],
                   CreatedAt = now env 1, UpdatedAt = now env 2, Stale = False \<rparr>)"

definition ExecuteStep ::
  "env \<Rightarrow> platform \<Rightarrow> step_request \<Rightarrow> store \<Rightarrow> (error + step_response) \<times> store" where
  "ExecuteStep env pf req s =
     (let inputHash = ComputeInputHash pf (Input req) in
      case WorkflowRepository_FindStepByInputHash env [] (ReqStepType req) inputHash s of
        Inl err \<Rightarrow> (Inl (Wrap ''failed to check cached step'' err), s)
      | Inr (Some cachedStep) \<Rightarrow>
          (case ArtifactRepository_GetByID env [] (ArtifactID cachedStep) s of
             Inl err \<Rightarrow> (Inl (Wrap ''failed to get cached artifact'' err), s)
           | Inr artifact \<Rightarrow>
               (Inr \<lparr> Step = cachedStep, RespArtifact = artifact, Cached = True \<rparr>, s))
      | Inr None \<Rightarrow>
          (let step = \<lparr> StepID = new_uuid env 0, SessionID = ReqSessionID req,
                         StepType = ReqStepType req, ArtifactID = uuid_Nil,
                         InputHash = inputHash, OutputHash = [],
                         StepMetadata = ReqMetadata req, StepCreatedAt = now env 0,
                         CompletedAt = None, Status = StepRunning \<rparr>
           in case WorkflowRepository_StoreStep env pf [] step s of
                (Some err, s1) \<Rightarrow> (Inl (Wrap ''failed to store step'' err), s1)
              | (None, s1) \<Rightarrow>
                  (case simulateStepExecution env pf step (Input req) of
                     Inl err \<Rightarrow>
                       (Inl (Wrap ''failed to execute step'' err),
                        snd (WorkflowRepository_UpdateStep env pf [] (step\<lparr>Status := StepFailed\<rparr>) s1))
                   | Inr artifact \<Rightarrow>
                       (case ArtifactRepository_Store env pf [] artifact s1 of
                          (Some err, s2) \<Rightarrow> (Inl (Wrap ''failed to store artifact'' err), s2)
                        | (None, s2) \<Rightarrow>
                            (case (if length (Embedding artifact) > 0
                                   then VectorRepository_Store env [] (ID artifact)
                                          (Embedding artifact) (Metadata artifact) s2
                                   else (None, s2)) of
                               (Some err, s3) \<Rightarrow> (Inl (Wrap ''failed to store vector'' err), s3)
                             | (None, s3) \<Rightarrow>
                                 (let step' = step\<lparr>ArtifactID := ID artifact,
                                                    OutputHash := ContentHash artifact,
                                                    Status := StepCompleted,
                                                    CompletedAt := Some (now env 3)\<rparr>
                                  in case WorkflowRepository_UpdateStep env pf [] step' s3 of
                                       (Some err, s4) \<Rightarrow>
                                         (Inl (Wrap ''failed to update step'' err), s4)
                                     | (None, s4) \<Rightarrow>
                                         (Inr \<lparr> Step = step', RespArtifact = Some artifact,
                                                Cached = False \<rparr>, s4)))))))"

fun lookup_step_enrich :: "env \<Rightarrow> nat \<Rightarrow> step_result list \<Rightarrow> store \<Rightarrow> step_result list" where
  "lookup_step_enrich env i [] s = []"
| "lookup_step_enrich env i (result # results) s =
     (if ArtifactID (ResStep result) \<noteq> uuid_Nil
      then (case ArtifactRepository_GetByID env [i] (ArtifactID (ResStep result)) s of
              Inl err \<Rightarrow> result
            | Inr artifact \<Rightarrow> result\<lparr>ResArtifact := artifact\<rparr>)
      else result) # lookup_step_enrich env (Suc i) results s"

definition LookupStep ::
  "env \<Rightarrow> platform \<Rightarrow> floatops \<Rightarrow> lookup_request \<Rightarrow> store \<Rightarrow> error + step_result list" where
  "LookupStep env pf fo req s =
     (let inputText = sprintf_v pf (LookupInput req) in
      case embedding_provider env inputText of
        None \<Rightarrow> Inl (Wrap ''failed to generate embedding'' (Failure EmbeddingGenerate []))
      | Some embedding \<Rightarrow>
          (case WorkflowRepository_FindSimilarSteps env fo [] (LookupStepType req) (LookupTopK req) s of
             Inl err \<Rightarrow> Inl (Wrap ''failed to find similar steps'' err)
           | Inr results \<Rightarrow> Inr (lookup_step_enrich env 0 results s)))"

definition CompleteSession :: "env \<Rightarrow> platform \<Rightarrow> uuid \<Rightarrow> store \<Rightarrow> error option \<times> store" where
  "CompleteSession env pf sessionID s =
     (case WorkflowRepository_GetSession env [] sessionID s of
        Inl err \<Rightarrow> (Some (Wrap ''failed to get session'' err), s)
      | Inr None \<Rightarrow> (Some (Errorf ''session not found''), s)
      | Inr (Some session) \<Rightarrow>
          WorkflowRepository_UpdateSession env pf []
            (session\<lparr>SessStatus := SessionCompleted, SessUpdatedAt := now env 0\<rparr>) s)"

text \<open>\<open>m[key] = value\<close> on a map.\<close>

definition gmap_set :: "string \<Rightarrow> gval \<Rightarrow> gmap \<Rightarrow> gmap" where
  "gmap_set key v m =
     (if key \<in> set (map fst m) then map (\<lambda>kv. if fst kv = key then (key, v) else kv) m
      else m @ [(key, v)])"

definition FailSession ::
  "env \<Rightarrow> platform \<Rightarrow> uuid \<Rightarrow> string \<Rightarrow> store \<Rightarrow> error option \<times> store" where
  "FailSession env pf sessionID reason s =
     (case WorkflowRepository_GetSession env [] sessionID s of
        Inl err \<Rightarrow> (Some (Wrap ''failed to get session'' err), s)
      | Inr None \<Rightarrow> (Some (Errorf ''session not found''), s)
      | Inr (Some session) \<Rightarrow>
          WorkflowRepository_UpdateSession env pf []
            (session\<lparr>SessStatus := SessionFailed, SessUpdatedAt := now env 0,
                     Context := gmap_set ''failure_reason'' (GStr reason) (Context session)\<rparr>) s)"

text \<open>
  The operations of the workflow service, and a run of them: each operation with the
  environment of its call, applied to the store the one before left.
\<close>

datatype workflow_op =
    OpCreateSession string gmap
  | OpGetSession uuid
  | OpExecuteStep step_request
  | OpLookupStep lookup_request
  | OpCompleteSession uuid
  | OpFailSession uuid string

fun run_op :: "platform \<Rightarrow> floatops \<Rightarrow> env \<Rightarrow> workflow_op \<Rightarrow> store \<Rightarrow> store" where
  "run_op pf fo env (OpCreateSession goal ctx) s = snd (CreateSession env pf goal ctx s)"
| "run_op pf fo env (OpGetSession sid) s = s"
| "run_op pf fo env (OpExecuteStep req) s = snd (ExecuteStep env pf req s)"
| "run_op pf fo env (OpLookupStep req) s = s"
| "run_op pf fo env (OpCompleteSession sid) s = snd (CompleteSession env pf sid s)"
| "run_op pf fo env (OpFailSession sid reason) s = snd (FailSession env pf sid reason s)"

fun run :: "platform \<Rightarrow> floatops \<Rightarrow> (env \<times> workflow_op) list \<Rightarrow> store \<Rightarrow> store" where
  "run pf fo [] s = s"
| "run pf fo ((env, op) # rest) s = run pf fo rest (run_op pf fo env op s)"

text \<open>
  \<open>uuid.New()\<close> returns an identifier that is not in use: along a run, the identifier
  drawn for the new step of an ExecuteStep is the id of no stored step.
\<close>

fun fresh_step_id :: "env \<Rightarrow> workflow_op \<Rightarrow> store \<Rightarrow> bool" where
  "fresh_step_id env (OpExecuteStep req) s = (new_uuid env 0 \<notin> set (map StepID (workflow_steps s)))"
| "fresh_step_id env _ s = True"

fun fresh_run :: "platform \<Rightarrow> floatops \<Rightarrow> (env \<times> workflow_op) list \<Rightarrow> store \<Rightarrow> bool" where
  "fresh_run pf fo [] s = True"
| "fresh_run pf fo ((env, op) # rest) s =
     (fresh_step_id env op s \<and> fresh_run pf fo rest (run_op pf fo env op s))"

definition terminal :: "step_status \<Rightarrow> bool" where
  "terminal st = (st = StepCompleted \<or> st = StepFailed)"

section \<open>MockProvider\<close>

text \<open>
  The text the provider receives is a valid UTF-8 string (a string decoded from JSON is),
  given by its code points; \<open>utf8\<close> gives its bytes, which \<open>len\<close>, indexing and
  SHA-256 read. \<open>is_space\<close> is \<open>unicode.IsSpace\<close>. \<open>lower_rune\<close> is
  \<open>unicode.ToLower\<close>: written out on ASCII, the table of the platform beyond.
\<close>

type_synonym rune = nat

definition is_space :: "rune \<Rightarrow> bool" where
  "is_space r =
     (if r \<le> 255 then r \<in> {9, 10, 11, 12, 13, 32, 133, 160}
      else r = 5760 \<or> (8192 \<le> r \<and> r \<le> 8202) \<or> r = 8232 \<or> r = 8233 \<or> r = 8239
           \<or> r = 8287 \<or> r = 12288)"

definition lower_rune :: "platform \<Rightarrow> rune \<Rightarrow> rune" where
  "lower_rune pf r =
     (if r \<le> 127 then (if 65 \<le> r \<and> r \<le> 90 then r + 32 else r) else lower_table pf r)"

definition ToLower :: "platform \<Rightarrow> rune list \<Rightarrow> rune list" where
  "ToLower pf s = map (lower_rune pf) s"

text \<open>\<open>strings.TrimSpace\<close>: the white space at both ends is cut.\<close>

definition TrimSpace :: "rune list \<Rightarrow> rune list" where
  "TrimSpace s = rev (dropWhile is_space (rev (dropWhile is_space s)))"

text \<open>
  \<open>strings.Fields\<close>: the maximal runs of characters that are not white space;
  \<open>cur\<close> is the field being read.
\<close>

fun fields_from :: "rune list \<Rightarrow> rune list \<Rightarrow> rune list list" where
  "fields_from cur [] = (if cur = [] then [] else [cur])"
| "fields_from cur (r # rs) =
     (if is_space r then (if cur = [] then fields_from [] rs else cur # fields_from [] rs)
      else fields_from (cur @ [r]) rs)"

definition Fields :: "rune list \<Rightarrow> rune list list" where
  "Fields s = fields_from [] s"

definition utf8_rune :: "rune \<Rightarrow> bytes" where
  "utf8_rune r =
     (if r < 128 then [char_of r]
      else if r < 2048 then [char_of (192 + r div 64), char_of (128 + r mod 64)]
      else if r < 65536
      then [char_of (224 + r div 4096), char_of (128 + r div 64 mod 64), char_of (128 + r mod 64)]
      else [char_of (240 + r div 262144), char_of (128 + r div 4096 mod 64),
            char_of (128 + r div 64 mod 64), char_of (128 + r mod 64)])"

definition utf8 :: "rune list \<Rightarrow> bytes" where
  "utf8 s = concat (map utf8_rune s)"

text \<open>\<open>sha256.Sum256\<close> returns an array of 32 bytes.\<close>

definition Sum256 :: "platform \<Rightarrow> bytes \<Rightarrow> bytes" where
  "Sum256 pf bs = take 32 (sha256 pf bs @ replicate 32 (CHR 0x00))"

definition normalizeEmbedding :: "floatops \<Rightarrow> float32 list \<Rightarrow> float32 list" where
  "normalizeEmbedding fo embedding =
     (let sum = fold (\<lambda>val acc. f32_add fo acc (f32_mul fo val val)) embedding 0;
          norm = f32_of_f64 fo (f64_sqrt fo (f64_of_f32 fo sum))
      in if f32_lt fo (f32_lit fo ''0'') norm then map (\<lambda>x. f32_div fo x norm) embedding
         else embedding)"

text \<open>The body of the loop of \<open>createEmbedding\<close>: the value at position \<open>i\<close>.\<close>

definition embedding_value :: "floatops \<Rightarrow> bytes \<Rightarrow> bytes \<Rightarrow> nat \<Rightarrow> nat \<Rightarrow> float32" where
  "embedding_value fo hash text wordCount i =
     (let textLen = length text;
          v0 = f64_div fo (f64_of_nat fo (of_char (hash ! (i mod 32)))) (f64_lit fo ''255.0'');
          v1 = (if i < textLen
                then f64_add fo v0
                       (f64_div fo (f64_of_nat fo (of_char (text ! (i mod textLen))))
                          (f64_lit fo ''255.0''))
                else v0);
          v2 = f64_add fo v1 (f64_div fo (f64_of_nat fo wordCount) (f64_lit fo ''1000.0''));
          v3 = f64_add fo v2 (f64_sin fo (f64_mul fo (f64_of_nat fo i) (f64_lit fo ''0.1'')));
          v4 = f64_div fo (f64_sub fo v3 (f64_lit fo ''1.0'')) (f64_lit fo ''2.0'')
      in f32_of_f64 fo v4)"

definition createEmbedding :: "floatops \<Rightarrow> platform \<Rightarrow> rune list \<Rightarrow> float32 list" where
  "createEmbedding fo pf text0 =
     (let text = ToLower pf (TrimSpace text0);
          hash = Sum256 pf (utf8 text);
          wordCount = length (Fields text)
      in normalizeEmbedding fo
           (map (embedding_value fo hash (utf8 text) wordCount) [0..<1536]))"

definition GenerateEmbedding :: "floatops \<Rightarrow> platform \<Rightarrow> rune list \<Rightarrow> error + float32 list" where
  "GenerateEmbedding fo pf text = Inr (createEmbedding fo pf text)"

definition GenerateEmbeddings ::
  "floatops \<Rightarrow> platform \<Rightarrow> rune list list \<Rightarrow> error + float32 list list" where
  "GenerateEmbeddings fo pf texts = Inr (map (createEmbedding fo pf) texts)"

section \<open>Notions of the specification\<close>

text \<open>
  What one entry of a filter map demands of a payload, in the words of the specification:
  an entry with a string value demands that the payload field equals that string; an
  entry with any other value demands nothing.
\<close>

definition spec_filter_entry :: "gmap \<Rightarrow> string \<times> gval \<Rightarrow> bool" where
  "spec_filter_entry pl kv =
     (case snd kv of GStr v \<Rightarrow> map_of pl (fst kv) = Some (GStr v) | _ \<Rightarrow> True)"

definition is_string_entry :: "string \<times> gval \<Rightarrow> bool" where
  "is_string_entry kv = (case snd kv of GStr v \<Rightarrow> True | _ \<Rightarrow> False)"

text \<open>No call to a repository, to the vector index or to the provider fails.\<close>

definition no_faults :: "env \<Rightarrow> bool" where
  "no_faults env = (\<forall>c at. \<not> fails env c at)"

text \<open>
  The step rows of \<open>s'\<close> are the step rows of \<open>s\<close>, unchanged and in place, followed
  by rows of id \<open>i\<close> only.
\<close>

definition steps_extend :: "uuid \<Rightarrow> store \<Rightarrow> store \<Rightarrow> bool" where
  "steps_extend i s s' =
     (\<exists>new. workflow_steps s' = workflow_steps s @ new \<and> list_all (\<lambda>r. StepID r = i) new)"

text \<open>What marking a row stale writes: the flag and \<open>updated_at\<close>.\<close>

definition mark_stale :: "env \<Rightarrow> artifact \<Rightarrow> artifact" where
  "mark_stale env r = r\<lparr>Stale := True, UpdatedAt := db_now env\<rparr>"

text \<open>A stand-in platform for evaluating the definitions on concrete inputs.\<close>

definition test_platform :: platform where
  "test_platform =
     \<lparr> sha256 = (\<lambda>bs. replicate 31 (CHR 0x00) @ [char_of (length bs)]),
       json_string = (\<lambda>s. ''\"'' @ s @ ''\"''),
       sprintf_v = (\<lambda>v. ''?''),
       lower_table = (\<lambda>r. if 192 \<le> r \<and> r \<le> 222 \<and> r \<noteq> 215 then r + 32 else r),
       jsonb_out = (\<lambda>v. ''?''),
       uuid_string = (\<lambda>n. replicate n (CHR ''i'')) \<rparr>"

definition test_floatops :: floatops where
  "test_floatops =
     \<lparr> f32_lit = (\<lambda>s. if s = ''0.85'' then 85 else if s = ''255.0'' then 255 else 0),
       f32_of_byte = (\<lambda>c. of_char c),
       f32_add = (+), f32_mul = (*), f32_div = (div), f32_eq = (=), f32_lt = (<),
       f32_of_f64 = ucast, f64_of_f32 = ucast,
       f64_lit = (\<lambda>s. 0), f64_of_nat = of_nat,
       f64_add = (+), f64_sub = (-), f64_mul = (*), f64_div = (div),
       f64_sin = (\<lambda>x. x), f64_sqrt = (\<lambda>x. x),
       cosine = (\<lambda>q v. 100) \<rparr>"

definition test_env :: env where
  "test_env =
     \<lparr> new_uuid = (\<lambda>k. 100 + k), now = (\<lambda>k. 1000 + k), db_now = 2000,
       fails = (\<lambda>c at. False), embedding_provider = (\<lambda>t. Some [1]) \<rparr>"

definition empty_store :: store where
  "empty_store =
     \<lparr> artifacts = [], artifact_dependencies = [], workflow_sessions = [],
       workflow_steps = [], collection_exists = False, points = [] \<rparr>"

text \<open>
  The fourth scenario of the specification: an artifact with \<open>source_url = u\<close> is
  published into the empty store, then \<open>u\<close> is invalidated.
\<close>

definition scenario_artifact :: artifact where
  "scenario_artifact =
     \<lparr> ID = uuid_Nil, Type = ''RAW'', ContentHash = [], Content = ''hello'', Embedding = [1],
       Dependencies = [], Metadata = [(''source_url'', GStr ''u'')], CreatedAt = 0,
       UpdatedAt = 0, Stale = False \<rparr>"

definition published_store :: store where
  "published_store = snd (Publish test_env test_platform [scenario_artifact] empty_store)"

definition invalidated_store :: store where
  "invalidated_store = snd (Invalidate test_env test_platform ''u'' published_store)"

definition scenario_options :: "bool \<Rightarrow> lookup_options" where
  "scenario_options include_stale =
     \<lparr> Query = ''hello'', TopK = 0, MinScore = 0, ArtifactType = [],
       IncludeStale = include_stale, IncludeContent = False, IncludeEmbedding = False \<rparr>"

definition result_summary :: "error + lookup_result list \<Rightarrow> error + (uuid \<times> bool) list" where
  "result_summary res = map_sum (\<lambda>e. e) (map (\<lambda>r. (ID (Artifact r), Stale (Artifact r)))) res"

text \<open>An artifact whose \<open>source_url\<close> is the boolean \<open>true\<close>, not a string.\<close>

definition bool_url_artifact :: artifact where
  "bool_url_artifact =
     \<lparr> ID = 7, Type = ''RAW'', ContentHash = ''h'', Content = ''x'', Embedding = [],
       Dependencies = [], Metadata = [(''source_url'', GBool True)], CreatedAt = 1,
       UpdatedAt = 2, Stale = False \<rparr>"

text \<open>A collection of two points with different payloads.\<close>

definition typed_points_store :: store where
  "typed_points_store =
     empty_store\<lparr>collection_exists := True,
       points := [\<lparr> pid = 1, vector = [1], payload = [(''type'', GStr ''RAW'')] \<rparr>,
                  \<lparr> pid = 2, vector = [1],
                     payload = [(''type'', GStr ''ANSWER''), (''stale'', GBool True)] \<rparr>]\<rparr>"

text \<open>
  The third scenario of the specification: a \<open>scrape\<close> step is executed on the empty
  store. An environment in which storing an artifact fails, and a store whose only step
  links to an artifact that is not stored.
\<close>

definition scrape_request :: step_request where
  "scrape_request =
     \<lparr> ReqSessionID = 5, ReqStepType = ''scrape'', Input = GStr ''https://example.com/a'',
       ReqMetadata = [] \<rparr>"

definition executed_store :: store where
  "executed_store = snd (ExecuteStep test_env test_platform scrape_request empty_store)"

definition response_summary ::
  "error + step_response \<Rightarrow> error + (bool \<times> step_status \<times> uuid \<times> uuid option)" where
  "response_summary res =
     map_sum (\<lambda>e. e)
       (\<lambda>resp. (Cached resp, Status (Step resp), ArtifactID (Step resp),
                 map_option ID (RespArtifact resp))) res"

definition orphan_store :: store where
  "orphan_store =
     empty_store\<lparr>workflow_steps :=
       [\<lparr> StepID = 1, SessionID = 5, StepType = ''scrape'', ArtifactID = 9,
          InputHash = ComputeInputHash test_platform (GStr ''https://example.com/a''),
          OutputHash = ''o'', StepMetadata = [], StepCreatedAt = 1, CompletedAt = Some 2,
          Status = StepCompleted \<rparr>]\<rparr>"

definition other_env :: env where
  "other_env =
     \<lparr> new_uuid = (\<lambda>k. 200 + k), now = (\<lambda>k. 3000 + k), db_now = 4000,
       fails = (\<lambda>c at. c = ArtifactStore), embedding_provider = (\<lambda>t. Some [1]) \<rparr>"

definition process_request :: step_request where
  "process_request =
     \<lparr> ReqSessionID = 5, ReqStepType = ''process'', Input = GNum ''1'', ReqMetadata = [] \<rparr>"

definition test_ops1 :: "(env \<times> workflow_op) list" where
  "test_ops1 = [(test_env, OpExecuteStep scrape_request)]"

definition test_ops2 :: "(env \<times> workflow_op) list" where
  "test_ops2 = [(other_env, OpExecuteStep process_request), (test_env, OpFailSession 5 ''x'')]"

section \<open>Properties of the hasher\<close>

lemma those_map_eq:
  "those (map f xs) = (if \<forall>x \<in> set xs. f x \<noteq> None then Some (map (\<lambda>x. the (f x)) xs) else None)"
  by (induction xs) (auto split: option.splits)

lemma sort_key_fst_unique:
  assumes "distinct (map fst xs)" "distinct (map fst ys)" "set xs = set ys"
  shows "sort_key fst xs = sort_key fst ys"
proof -
  have dx: "distinct xs" and dy: "distinct ys"
    using assms(1,2) by (simp_all add: distinct_map)
  have "mset xs = mset (sort_key fst ys)"
    using dx dy assms(3) by (simp add: set_eq_iff_mset_eq_distinct)
  moreover have "inj_on fst (set xs)"
    using assms(1) by (simp add: distinct_map)
  moreover have "sorted (map fst (sort_key fst ys))"
    by simp
  ultimately show ?thesis
    by (rule sort_key_inj_key_eq)
qed

lemma json_like_marshal: "json_like x \<Longrightarrow> \<exists>d. marshal q x = Some d"
proof (induction x)
  case (GArr xs)
  then have "\<forall>x \<in> set xs. marshal q x \<noteq> None"
    by (fastforce simp: list_all_iff)
  then show ?case by (simp add: those_map_eq)
next
  case (GObj kvs)
  have "\<forall>kv \<in> set kvs. marshal q (snd kv) \<noteq> None"
  proof
    fix kv assume kv: "kv \<in> set kvs"
    then have "json_like (snd kv)" using GObj.prems by (simp add: list_all_iff)
    moreover have "snd kv \<in> Basic_BNFs.snds kv" by (cases kv) simp
    ultimately show "marshal q (snd kv) \<noteq> None" using GObj.IH kv by fastforce
  qed
  then show ?case by (simp add: those_map_eq case_prod_beta)
qed simp_all

lemma none_img:
  fixes g :: "'a \<Rightarrow> 'b option"
  assumes img: "g ` A = g ` B"
  shows "(\<forall>x \<in> A. g x \<noteq> None) = (\<forall>x \<in> B. g x \<noteq> None)"
proof -
  have "(\<exists>x \<in> A. g x = None) = (None \<in> g ` A)" by (metis image_iff)
  also have "\<dots> = (None \<in> g ` B)" using img by simp
  also have "\<dots> = (\<exists>x \<in> B. g x = None)" by (metis image_iff)
  finally have e: "(\<exists>x \<in> A. g x = None) = (\<exists>x \<in> B. g x = None)" .
  have "(\<forall>x \<in> A. g x \<noteq> None) = (\<not> (\<exists>x \<in> A. g x = None))" by simp
  also have "\<dots> = (\<not> (\<exists>x \<in> B. g x = None))" by (simp only: e)
  also have "\<dots> = (\<forall>x \<in> B. g x \<noteq> None)" by simp
  finally show ?thesis .
qed

lemma those_map_Some:
  "\<forall>x \<in> set xs. f x \<noteq> None \<Longrightarrow> those (map f xs) = Some (map (\<lambda>x. the (f x)) xs)"
  by (simp add: those_map_eq)

lemma those_map_None:
  "\<not> (\<forall>x \<in> set xs. f x \<noteq> None) \<Longrightarrow> those (map f xs) = None"
  by (simp add: those_map_eq)

lemma map_fst_the:
  assumes "\<And>kv e. g kv = Some e \<Longrightarrow> fst e = fst kv" and "\<forall>kv \<in> set kvs. g kv \<noteq> None"
  shows "map fst (map (\<lambda>kv. the (g kv)) kvs) = map fst kvs"
  using assms(2)
proof (induction kvs)
  case Nil
  then show ?case by simp
next
  case (Cons kv kvs)
  then obtain e where "g kv = Some e" by auto
  then have "fst (the (g kv)) = fst kv" using assms(1) by simp
  then show ?case using Cons by simp
qed

lemma obj_entries_sorted_eq:
  fixes g :: "'k::linorder \<times> 'v \<Rightarrow> ('k \<times> 'e) option"
  assumes fstg: "\<And>kv e. g kv = Some e \<Longrightarrow> fst e = fst kv"
    and img: "g ` set kvs = g ` set kvs'"
    and dk: "distinct (map fst kvs)" and dk': "distinct (map fst kvs')"
  shows "map_option (sort_key fst) (those (map g kvs)) = map_option (sort_key fst) (those (map g kvs'))"
proof (cases "\<forall>kv \<in> set kvs. g kv \<noteq> None")
  case False
  then have F': "\<not> (\<forall>kv \<in> set kvs'. g kv \<noteq> None)" unfolding none_img [OF img] .
  show ?thesis by (simp only: those_map_None [OF False] those_map_None [OF F'])
next
  case True
  let ?es = "map (\<lambda>kv. the (g kv)) kvs" and ?es' = "map (\<lambda>kv. the (g kv)) kvs'"
  have T': "\<forall>kv \<in> set kvs'. g kv \<noteq> None" using True unfolding none_img [OF img] .
  have f1: "map fst ?es = map fst kvs" using fstg True by (rule map_fst_the)
  have f2: "map fst ?es' = map fst kvs'" using fstg T' by (rule map_fst_the)
  have "set ?es = the ` g ` set kvs" by (simp add: image_image)
  also have "\<dots> = the ` g ` set kvs'" by (simp only: img)
  also have "\<dots> = set ?es'" by (simp add: image_image)
  finally have s: "set ?es = set ?es'" .
  have d1: "distinct (map fst ?es)" using dk by (simp only: f1)
  have d2: "distinct (map fst ?es')" using dk' by (simp only: f2)
  have "sort_key fst ?es = sort_key fst ?es'"
    using d1 d2 s by (rule sort_key_fst_unique)
  then show ?thesis by (simp only: those_map_Some [OF True] those_map_Some [OF T'] option.map)
qed

lemma marshal_entry_img:
  assumes keys: "fst ` set kvs = fst ` set kvs'"
    and same: "\<And>k v v'. (k, v) \<in> set kvs \<Longrightarrow> (k, v') \<in> set kvs' \<Longrightarrow> f v = f v'"
  shows "(\<lambda>(k, v). map_option (Pair k) (f v)) ` set kvs \<subseteq> (\<lambda>(k, v). map_option (Pair k) (f v)) ` set kvs'"
proof
  fix e assume "e \<in> (\<lambda>(k, v). map_option (Pair k) (f v)) ` set kvs"
  then obtain k v where kv: "(k, v) \<in> set kvs" and e: "e = map_option (Pair k) (f v)" by auto
  have "k \<in> fst ` set kvs" using kv by (metis fst_conv image_eqI)
  then have "k \<in> fst ` set kvs'" by (simp only: keys)
  then obtain v' where kv': "(k, v') \<in> set kvs'" by auto
  have "e = (\<lambda>(k, v). map_option (Pair k) (f v)) (k, v')" using same [OF kv kv'] e by simp
  then show "e \<in> (\<lambda>(k, v). map_option (Pair k) (f v)) ` set kvs'" using kv' by (rule image_eqI)
qed

lemma marshal_struct_eq:
  "wf_gval x \<Longrightarrow> wf_gval y \<Longrightarrow> struct_eq x y \<Longrightarrow> marshal q x = marshal q y"
proof (induction x arbitrary: y)
  case GNil
  then show ?case by (cases y) simp_all
next
  case (GBool b)
  then show ?case by (cases y) simp_all
next
  case (GNum n)
  then show ?case by (cases y) simp_all
next
  case (GStr s)
  then show ?case by (cases y) simp_all
next
  case (GOther t)
  then show ?case by (cases y) simp_all
next
  case (GArr xs)
  then obtain ys where y: "y = GArr ys" by (cases y) simp_all
  have l: "list_all2 struct_eq xs ys" using GArr.prems(3) by (simp add: y)
  have w: "list_all wf_gval xs" "list_all wf_gval ys" using GArr.prems(1,2) by (simp_all add: y)
  have "map (marshal q) xs = map (marshal q) ys"
    using l GArr.IH w
  proof (induction xs ys rule: list_all2_induct)
    case Nil
    then show ?case by simp
  next
    case (Cons a as b bs)
    then show ?case by simp
  qed
  then show ?case by (simp add: y)
next
  case (GObj kvs)
  then obtain kvs' where y: "y = GObj kvs'" by (cases y) simp_all
  let ?g = "\<lambda>(k, v). map_option (Pair k) (marshal q v)"
  have keys: "fst ` set kvs = fst ` set kvs'"
    using GObj.prems(3) by (simp add: y)
  have vals: "\<And>k v v'. (k, v) \<in> set kvs \<Longrightarrow> (k, v') \<in> set kvs' \<Longrightarrow> struct_eq v v'"
    using GObj.prems(3) by (simp add: y) blast
  have dk: "distinct (map fst kvs)" and dk': "distinct (map fst kvs')"
    using GObj.prems(1,2) by (simp_all add: y)
  have wf1: "\<And>k v. (k, v) \<in> set kvs \<Longrightarrow> wf_gval v"
    using GObj.prems(1) by (auto simp: list_all_iff)
  have wf2: "\<And>k v. (k, v) \<in> set kvs' \<Longrightarrow> wf_gval v"
    using GObj.prems(2) by (auto simp: y list_all_iff)
  have same: "marshal q v = marshal q v'" if a: "(k, v) \<in> set kvs" and b: "(k, v') \<in> set kvs'" for k v v'
  proof -
    have "v \<in> Basic_BNFs.snds (k, v)" by simp
    then show ?thesis
      using GObj.IH [OF a _ wf1 [OF a] wf2 [OF b] vals [OF a b]] by simp
  qed
  have same': "marshal q v' = marshal q v" if "(k, v') \<in> set kvs'" "(k, v) \<in> set kvs" for k v v'
    using same that by simp
  have "?g ` set kvs \<subseteq> ?g ` set kvs'"
    using keys same by (rule marshal_entry_img)
  moreover have "?g ` set kvs' \<subseteq> ?g ` set kvs"
    using keys [symmetric] same' by (rule marshal_entry_img)
  ultimately have img: "?g ` set kvs = ?g ` set kvs'" by (rule subset_antisym)
  have fstg: "\<And>kv e. ?g kv = Some e \<Longrightarrow> fst e = fst kv" by auto
  have "map_option (sort_key fst) (those (map ?g kvs)) = map_option (sort_key fst) (those (map ?g kvs'))"
    using fstg img dk dk' by (rule obj_entries_sorted_eq)
  then have "map_option (\<lambda>es. ''{'' @ join '','' (map (\<lambda>(k, e). q k @ '':'' @ e) es) @ ''}'')
        (map_option (sort_key fst) (those (map ?g kvs))) =
      map_option (\<lambda>es. ''{'' @ join '','' (map (\<lambda>(k, e). q k @ '':'' @ e) es) @ ''}'')
        (map_option (sort_key fst) (those (map ?g kvs')))"
    by (simp only:)
  then show ?case by (simp add: y option.map_comp comp_def)
qed

lemma length_EncodeToString: "length (EncodeToString bs) = 2 * length bs"
  by (induction bs) (simp_all add: EncodeToString_def hex_byte_def)

lemma hex_digit_in: "hex_digit n \<in> set ''0123456789abcdef''"
proof -
  have "n mod 16 < length ''0123456789abcdef''" by simp
  then show ?thesis unfolding hex_digit_def by (rule nth_mem)
qed

lemma EncodeToString_hex: "list_all (\<lambda>c. c \<in> set ''0123456789abcdef'') (EncodeToString bs)"
  unfolding list_all_iff EncodeToString_def hex_byte_def
  using hex_digit_in by auto

text \<open>
  C4. Two structurally equal JSON-like values (objects compared as sets of entries,
  whatever the order of their entries) have the same input hash, and the input hash is
  the content hash of the canonical JSON text of the value: 64 lowercase hexadecimal
  digits when SHA-256 returns its 32 bytes.
\<close>

theorem ComputeInputHash_structural:
  assumes "wf_gval x" and "wf_gval y" and "json_like x" and "struct_eq x y"
    and "\<And>bs. length (sha256 sl bs) = 32"
  shows "ComputeInputHash sl x = ComputeInputHash sl y \<and>
    (\<exists>d. marshal (json_string sl) x = Some d \<and> marshal (json_string sl) y = Some d \<and>
         ComputeInputHash sl x = ComputeContentHash sl d) \<and>
    is_hex64 (ComputeInputHash sl x)"
proof -
  obtain d where d: "marshal (json_string sl) x = Some d"
    using json_like_marshal [OF assms(3)] by blast
  have d': "marshal (json_string sl) y = Some d"
    using marshal_struct_eq [OF assms(1,2,4)] d by simp
  have h: "ComputeInputHash sl x = ComputeContentHash sl d"
    by (simp add: ComputeInputHash_def d)
  have "is_hex64 (ComputeContentHash sl d)"
    unfolding is_hex64_def ComputeContentHash_def
    using EncodeToString_hex [of "sha256 sl d"]
    by (simp only: length_EncodeToString assms(5)) simp
  then show ?thesis using d d' h by (simp add: ComputeInputHash_def)
qed

theorem ComputeInputHash_structural_witness:
  "ComputeInputHash test_platform (GObj [(''b'', GNum ''1''), (''a'', GArr [GNil, GStr ''x''])]) =
   ComputeInputHash test_platform (GObj [(''a'', GArr [GNil, GStr ''x'']), (''b'', GNum ''1'')]) \<and>
   is_hex64 (ComputeInputHash test_platform (GObj [(''b'', GNum ''1''), (''a'', GArr [GNil, GStr ''x''])]))"
proof -
  let ?x = "GObj [(''b'', GNum ''1''), (''a'', GArr [GNil, GStr ''x''])]"
  let ?y = "GObj [(''a'', GArr [GNil, GStr ''x'']), (''b'', GNum ''1'')]"
  have 1: "wf_gval ?x" and 2: "wf_gval ?y" and 3: "json_like ?x" by simp_all
  have 4: "struct_eq ?x ?y" by auto
  have 5: "\<And>bs. length (sha256 test_platform bs) = 32" by (simp add: test_platform_def)
  show ?thesis
    using ComputeInputHash_structural [OF 1 2 3 4 5] by blast
qed

section \<open>Properties of the vector index\<close>

lemma filter_conditions_spec:
  "list_all (condition_holds pl) (filter_conditions flt) = list_all (spec_filter_entry pl) flt"
  by (induction flt rule: filter_conditions.induct) (simp_all add: spec_filter_entry_def)

lemma filter_conditions_strings:
  "filter_conditions (filter is_string_entry flt) = filter_conditions flt"
  by (induction flt rule: filter_conditions.induct) (simp_all add: is_string_entry_def)

lemma Must_search_request:
  "Must (search_request fo q k m flt) =
     (if filter_conditions flt = [] then None else Some (filter_conditions flt))"
  by (cases flt) (auto simp: search_request_def)

lemma filter_holds_search_request:
  "filter_holds (Must (search_request fo q k m flt)) p = list_all (spec_filter_entry (payload p)) flt"
proof (cases "filter_conditions flt = []")
  case True
  have "list_all (condition_holds (payload p)) (filter_conditions flt)"
    by (simp add: True)
  then have "list_all (spec_filter_entry (payload p)) flt"
    by (simp only: filter_conditions_spec)
  then show ?thesis by (simp add: Must_search_request True filter_holds_def)
next
  case False
  then show ?thesis
    by (simp add: Must_search_request filter_holds_def filter_conditions_spec)
qed

lemma search_request_strings:
  "search_request fo q k m (filter is_string_entry flt) = search_request fo q k m flt"
proof -
  have "Must (search_request fo q k m (filter is_string_entry flt)) = Must (search_request fo q k m flt)"
    by (simp only: Must_search_request filter_conditions_strings)
  then show ?thesis by (simp add: search_request_def)
qed

lemma set_insert_ranked: "set (insert_ranked fo x xs) = insert x (set xs)"
  by (induction xs) auto

lemma set_rank: "set (rank fo xs) = set xs"
  by (induction xs) (simp_all add: rank_def set_insert_ranked)

lemma qdrant_query_sound:
  assumes "sp \<in> set (qdrant_query fo req pts)"
  shows "\<exists>p \<in> set pts. pid p = sp_id sp \<and> filter_holds (Must req) p"
proof -
  have "sp \<in> set (rank fo
         (filter (\<lambda>sp. case ScoreThreshold req of
                         None \<Rightarrow> True
                       | Some t \<Rightarrow> \<not> f32_lt fo (sp_score sp) t)
           (map (\<lambda>p. \<lparr> sp_id = pid p, sp_score = cosine fo (QueryVector req) (vector p),
                        sp_payload = payload p \<rparr>)
             (filter (filter_holds (Must req)) pts))))"
    using assms unfolding qdrant_query_def by (rule in_set_takeD)
  then have "sp \<in> set (map (\<lambda>p. \<lparr> sp_id = pid p, sp_score = cosine fo (QueryVector req) (vector p),
                        sp_payload = payload p \<rparr>)
             (filter (filter_holds (Must req)) pts))"
    by (simp add: set_rank)
  then show ?thesis by auto
qed

text \<open>
  C5. The filter of a vector search. A point passes the filter \<open>Search\<close> builds exactly
  when every entry of the filter map with a string value equals the payload field of that
  name (all entries combined by AND); the entries with a value that is not a string change
  nothing in the search; they cause no error: unless the query to the index itself fails,
  \<open>Search\<close> returns results, each a point that satisfies every string entry.
\<close>

theorem Search_filter_semantics:
  "filter_holds (Must (search_request fo q k m flt)) p = list_all (spec_filter_entry (payload p)) flt
   \<and> VectorRepository_Search env fo q k m (filter is_string_entry flt) s =
       VectorRepository_Search env fo q k m flt s
   \<and> (\<not> fails env VectorQuery [] \<longrightarrow>
        (\<exists>rs. VectorRepository_Search env fo q k m flt s = Inr rs \<and>
          (\<forall>r \<in> set rs. \<exists>p \<in> set (points s).
              pid p = ID (Artifact r) \<and> list_all (spec_filter_entry (payload p)) flt)))"
proof (intro conjI impI)
  show "filter_holds (Must (search_request fo q k m flt)) p = list_all (spec_filter_entry (payload p)) flt"
    by (rule filter_holds_search_request)
  show "VectorRepository_Search env fo q k m (filter is_string_entry flt) s =
       VectorRepository_Search env fo q k m flt s"
    by (simp only: VectorRepository_Search_def search_request_strings)
next
  assume nf: "\<not> fails env VectorQuery []"
  let ?sps = "qdrant_query fo (search_request fo q k m flt) (points s)"
  let ?conv = "\<lambda>sp. \<lparr> Artifact = artifact_zero\<lparr>ID := sp_id sp, Metadata := sp_payload sp\<rparr>,
                              Score = sp_score sp \<rparr>"
  have eq: "VectorRepository_Search env fo q k m flt s = Inr (map ?conv ?sps)"
    using nf by (simp add: VectorRepository_Search_def)
  have "\<exists>p \<in> set (points s). pid p = ID (Artifact r) \<and> list_all (spec_filter_entry (payload p)) flt"
    if "r \<in> set (map ?conv ?sps)" for r
  proof -
    from that obtain sp where sp: "sp \<in> set ?sps" and r: "r = ?conv sp" by auto
    obtain p where "p \<in> set (points s)" "pid p = sp_id sp"
      "filter_holds (Must (search_request fo q k m flt)) p"
      using qdrant_query_sound [OF sp] by blast
    then show ?thesis using r by (auto simp: filter_holds_search_request)
  qed
  then show "\<exists>rs. VectorRepository_Search env fo q k m flt s = Inr rs \<and>
          (\<forall>r \<in> set rs. \<exists>p \<in> set (points s).
              pid p = ID (Artifact r) \<and> list_all (spec_filter_entry (payload p)) flt)"
    using eq by blast
qed

theorem Search_filter_semantics_witness:
  "\<not> fails test_env VectorQuery [] \<and>
   map_sum (\<lambda>e. e) (map (\<lambda>r. ID (Artifact r)))
     (VectorRepository_Search test_env test_floatops [1] 10 0
        [(''type'', GStr ''RAW''), (''stale'', GBool False)] typed_points_store) = Inr [1] \<and>
   filter_holds (Must (search_request test_floatops [1] 10 0
        [(''type'', GStr ''RAW''), (''stale'', GBool False)]))
     \<lparr> pid = 1, vector = [1], payload = [(''type'', GStr ''RAW'')] \<rparr> \<and>
   list_all (spec_filter_entry [(''type'', GStr ''RAW'')])
     [(''type'', GStr ''RAW''), (''stale'', GBool False)]"
  using Search_filter_semantics [of test_floatops "[1]" 10 0
      "[(''type'', GStr ''RAW''), (''stale'', GBool False)]"
      "\<lparr> pid = 1, vector = [1], payload = [(''type'', GStr ''RAW'')] \<rparr>" test_env typed_points_store]
  by (simp add: test_env_def VectorRepository_Search_def search_request_def test_floatops_def
      qdrant_query_def typed_points_store_def empty_store_def filter_holds_def rank_def
      spec_filter_entry_def)

section \<open>Properties of the cache service\<close>


lemma find_after_append:
  assumes "\<forall>r \<in> set rows. \<not> P r" and "P x"
  shows "find P (rows @ [x]) = Some x"
  using assms by (induction rows) simp_all










lemma published_store_eq:
  "published_store =
     \<lparr> artifacts =
         [\<lparr> ID = 100, Type = ''RAW'', ContentHash = ComputeContentHash test_platform ''hello'',
            Content = ''hello'', Embedding = [], Dependencies = [],
            Metadata = [(''source_url'', GStr ''u'')], CreatedAt = 1000, UpdatedAt = 1001,
            Stale = False \<rparr>],
       artifact_dependencies = [], workflow_sessions = [], workflow_steps = [],
       collection_exists = True,
       points = [\<lparr> pid = 100, vector = [1], payload = [(''source_url'', GStr ''u'')] \<rparr>] \<rparr>"
  by (simp add: published_store_def Publish_def Let_def publish_prepare_def scenario_artifact_def
      uuid_Nil_def test_env_def empty_store_def ArtifactRepository_GetByContentHash_def
      ArtifactRepository_Store_def test_platform_def [THEN arg_cong, of json_string]
      artifact_row_def VectorRepository_Store_def ensureCollection_def qdrant_upsert_def)

lemma invalidated_store_eq:
  "invalidated_store =
     \<lparr> artifacts =
         [\<lparr> ID = 100, Type = ''RAW'', ContentHash = ComputeContentHash test_platform ''hello'',
            Content = ''hello'', Embedding = [], Dependencies = [],
            Metadata = [(''source_url'', GStr ''u'')], CreatedAt = 1000, UpdatedAt = 2000,
            Stale = True \<rparr>],
       artifact_dependencies = [], workflow_sessions = [], workflow_steps = [],
       collection_exists = True,
       points = [\<lparr> pid = 100, vector = [1], payload = [(''source_url'', GStr ''u'')] \<rparr>] \<rparr>"
  by (simp add: invalidated_store_def published_store_eq Invalidate_def
      ArtifactRepository_MarkStaleBySourceURL_def test_env_def source_url_text_def)

lemma Lookup_scenario:
  "result_summary (Lookup test_env test_platform test_floatops (scenario_options b) invalidated_store)
     = Inr [(100, True)]"
  by (simp add: result_summary_def Lookup_def lookup_defaults_def scenario_options_def
      test_floatops_def Let_def lookup_filter_def VectorRepository_Search_def test_env_def
      search_request_def qdrant_query_def invalidated_store_eq filter_holds_def rank_def
      artifact_zero_def ArtifactRepository_GetByID_def)

lemma lookup_defaults_IncludeStale:
  "lookup_defaults fo (options\<lparr>IncludeStale := b\<rparr>) = (lookup_defaults fo options)\<lparr>IncludeStale := b\<rparr>"
  by (simp add: lookup_defaults_def Let_def)

lemma lookup_enrich_IncludeStale:
  "lookup_enrich env (options\<lparr>IncludeStale := b\<rparr>) j vrs s = lookup_enrich env options j vrs s"
  by (induction vrs arbitrary: j) (simp_all add: Let_def split: sum.splits option.splits)

lemma search_request_lookup_filter:
  "search_request fo q k m (lookup_filter (options\<lparr>IncludeStale := b\<rparr>)) =
   search_request fo q k m (lookup_filter options)"
  by (simp add: search_request_def lookup_filter_def)

text \<open>
  Whatever \<open>include_stale\<close> is, Lookup returns the same: the entry \<open>stale = false\<close>
  of its filter has a boolean value, and \<open>Search\<close> keeps the string entries only.
\<close>

lemma Lookup_ignores_IncludeStale:
  "Lookup env pf fo (options\<lparr>IncludeStale := b\<rparr>) s = Lookup env pf fo options s"
  by (simp add: Lookup_def Let_def lookup_defaults_IncludeStale lookup_enrich_IncludeStale
      VectorRepository_Search_def search_request_lookup_filter)

text \<open>
  C3. The claim fails on the code. In the fourth scenario of the specification the
  artifact is published, its source is invalidated, the row is stale, and Lookup with
  \<open>include_stale = false\<close> returns that stale artifact.
\<close>

theorem Lookup_returns_stale_artifact:
  "fst (Publish test_env test_platform [scenario_artifact] empty_store) =
     Inr \<lparr> Published = [100], Skipped = [] \<rparr> \<and>
   fst (Invalidate test_env test_platform ''u'' published_store) = None \<and>
   map (\<lambda>r. (ID r, Stale r)) (artifacts invalidated_store) = [(100, True)] \<and>
   IncludeStale (scenario_options False) = False \<and>
   result_summary
     (Lookup test_env test_platform test_floatops (scenario_options False) invalidated_store) =
     Inr [(100, True)]"
proof -
  have "fst (Publish test_env test_platform [scenario_artifact] empty_store) =
     Inr \<lparr> Published = [100], Skipped = [] \<rparr>"
    by (simp add: Publish_def Let_def publish_prepare_def scenario_artifact_def
      uuid_Nil_def test_env_def empty_store_def ArtifactRepository_GetByContentHash_def
      ArtifactRepository_Store_def test_platform_def [THEN arg_cong, of json_string]
      artifact_row_def VectorRepository_Store_def ensureCollection_def qdrant_upsert_def)
  moreover have "fst (Invalidate test_env test_platform ''u'' published_store) = None"
    by (simp add: Invalidate_def ArtifactRepository_MarkStaleBySourceURL_def test_env_def)
  moreover have "map (\<lambda>r. (ID r, Stale r)) (artifacts invalidated_store) = [(100, True)]"
    by (simp add: invalidated_store_eq)
  moreover have "IncludeStale (scenario_options False) = False"
    by (simp add: scenario_options_def)
  ultimately show ?thesis using Lookup_scenario [of False] by simp
qed

text \<open>
  C6, as stated, fails: Lookup with \<open>top_k = 0\<close> returns a result, not the empty list.
\<close>

theorem Lookup_TopK_zero_counterexample:
  "TopK (scenario_options True) = 0 \<and>
   Lookup test_env test_platform test_floatops (scenario_options True) invalidated_store \<noteq> Inr []"
proof -
  have "result_summary
     (Lookup test_env test_platform test_floatops (scenario_options True) invalidated_store) \<noteq>
     result_summary (Inr [])"
    by (simp only: Lookup_scenario) (simp add: result_summary_def)
  then have "Lookup test_env test_platform test_floatops (scenario_options True) invalidated_store
      \<noteq> Inr []"
    by (rule contrapos_nn) (simp only:)
  then show ?thesis by (simp add: scenario_options_def)
qed

lemma lookup_defaults_TopK0:
  "lookup_defaults fo (options\<lparr>TopK := 0\<rparr>) = lookup_defaults fo (options\<lparr>TopK := 10\<rparr>)"
  by (simp add: lookup_defaults_def Let_def)

text \<open>
  C6, amended. Lookup with \<open>top_k = 0\<close> applies the default: it returns what Lookup with
  \<open>top_k = 10\<close> returns.
\<close>

theorem Lookup_TopK_zero_is_ten:
  "Lookup env pf fo (options\<lparr>TopK := 0\<rparr>) s = Lookup env pf fo (options\<lparr>TopK := 10\<rparr>) s"
  by (simp only: Lookup_def lookup_defaults_TopK0)

text \<open>
  C8, as stated, fails: an artifact whose \<open>source_url\<close> is the boolean \<open>true\<close> is marked
  stale by invalidating the url \<open>"true"\<close>, which its \<open>source_url\<close> does not equal.
\<close>

theorem Invalidate_counterexample:
  "map_of (Metadata bool_url_artifact) ''source_url'' \<noteq> Some (GStr ''true'') \<and>
   Invalidate test_env test_platform ''true'' (empty_store\<lparr>artifacts := [bool_url_artifact]\<rparr>) =
     (None, empty_store\<lparr>artifacts := [bool_url_artifact\<lparr>Stale := True, UpdatedAt := 2000\<rparr>]\<rparr>)"
  by (simp add: bool_url_artifact_def Invalidate_def ArtifactRepository_MarkStaleBySourceURL_def
      test_env_def source_url_text_def empty_store_def)

lemma source_url_text_string:
  "map_of (Metadata (r::artifact)) ''source_url'' = Some (GStr u) \<Longrightarrow>
     (source_url_text pf r = Some url) = (u = url)"
  by (simp add: source_url_text_def)

lemma source_url_text_absent:
  "map_of (Metadata (r::artifact)) ''source_url'' = None \<Longrightarrow> source_url_text pf r \<noteq> Some url"
  by (simp add: source_url_text_def)

text \<open>
  C8, amended. Invalidate sets \<open>stale\<close> and \<open>updated_at\<close> on exactly the artifacts whose
  \<open>metadata->>'source_url'\<close>, the field read as text, is the given url, and changes
  nothing else: every other artifact, every other field of a marked artifact, the
  dependency edges, the sessions, the steps and the vector index stay as they were. For a
  \<open>source_url\<close> that is a string the text is the string; an absent \<open>source_url\<close> never
  matches. When the call to the database fails nothing changes.
\<close>

theorem Invalidate_frame:
  "(\<not> fails env ArtifactMarkStaleBySourceURL [] \<longrightarrow>
      Invalidate env pf url s =
        (None, s\<lparr>artifacts := map (\<lambda>r. if source_url_text pf r = Some url then mark_stale env r else r)
                                (artifacts s)\<rparr>))
   \<and> (fails env ArtifactMarkStaleBySourceURL [] \<longrightarrow>
        (\<exists>err. Invalidate env pf url s = (Some err, s)))
   \<and> (\<forall>r. ID (mark_stale env r) = ID r \<and> Type (mark_stale env r) = Type r \<and>
          ContentHash (mark_stale env r) = ContentHash r \<and> Content (mark_stale env r) = Content r \<and>
          Embedding (mark_stale env r) = Embedding r \<and>
          Dependencies (mark_stale env r) = Dependencies r \<and>
          Metadata (mark_stale env r) = Metadata r \<and> CreatedAt (mark_stale env r) = CreatedAt r \<and>
          Stale (mark_stale env r) \<and> UpdatedAt (mark_stale env r) = db_now env)
   \<and> (\<forall>(r::artifact) u. map_of (Metadata r) ''source_url'' = Some (GStr u) \<longrightarrow>
          (source_url_text pf r = Some url) = (u = url))
   \<and> (\<forall>r::artifact. map_of (Metadata r) ''source_url'' = None \<longrightarrow> source_url_text pf r \<noteq> Some url)"
proof (intro conjI impI allI)
  assume "\<not> fails env ArtifactMarkStaleBySourceURL []"
  then show "Invalidate env pf url s =
        (None, s\<lparr>artifacts := map (\<lambda>r. if source_url_text pf r = Some url then mark_stale env r else r)
                                (artifacts s)\<rparr>)"
    by (simp add: Invalidate_def ArtifactRepository_MarkStaleBySourceURL_def mark_stale_def)
next
  assume "fails env ArtifactMarkStaleBySourceURL []"
  then show "\<exists>err. Invalidate env pf url s = (Some err, s)"
    by (simp add: Invalidate_def ArtifactRepository_MarkStaleBySourceURL_def)
next
  fix r :: artifact and u assume "map_of (Metadata r) ''source_url'' = Some (GStr u)"
  then show "(source_url_text pf r = Some url) = (u = url)" by (rule source_url_text_string)
next
  fix r :: artifact assume "map_of (Metadata r) ''source_url'' = None"
  then show "source_url_text pf r \<noteq> Some url" by (rule source_url_text_absent)
qed (simp_all add: mark_stale_def)

theorem Invalidate_frame_witness:
  "\<not> fails test_env ArtifactMarkStaleBySourceURL [] \<and>
   Invalidate test_env test_platform ''u'' published_store = (None, invalidated_store) \<and>
   map (source_url_text test_platform) (artifacts published_store) = [Some ''u''] \<and>
   map Stale (artifacts published_store) = [False] \<and>
   map Stale (artifacts invalidated_store) = [True]"
proof -
  have 1: "\<not> fails test_env ArtifactMarkStaleBySourceURL []" by (simp add: test_env_def)
  have "Invalidate test_env test_platform ''u'' published_store =
        (None, published_store\<lparr>artifacts :=
           map (\<lambda>r. if source_url_text test_platform r = Some ''u'' then mark_stale test_env r else r)
             (artifacts published_store)\<rparr>)"
    using Invalidate_frame [of test_env test_platform "''u''" published_store] 1 by blast
  then have 2: "Invalidate test_env test_platform ''u'' published_store = (None, invalidated_store)"
    by (simp add: invalidated_store_def)
  show ?thesis using 1 2
    by (simp add: published_store_eq invalidated_store_eq source_url_text_def)
qed

section \<open>Properties of the workflow service\<close>

lemma latest_step_Nil: "(latest_step xs = None) = (xs = [])"
  by (cases xs) (simp_all split: option.splits)

lemma latest_step_mem: "latest_step xs = Some r \<Longrightarrow> r \<in> set xs"
  by (induction xs arbitrary: r) (auto split: option.splits if_splits)

lemma latest_step_single: "latest_step [r] = Some r"
  by simp

lemma completed_steps_mem:
  "r \<in> set (completed_steps t h s) \<Longrightarrow>
     r \<in> set (workflow_steps s) \<and> StepType r = t \<and> InputHash r = h \<and> Status r = StepCompleted"
  by (simp add: completed_steps_def)

lemma find_by_ID:
  "aid \<in> set (map ID rows) \<Longrightarrow> \<exists>r. find (\<lambda>r. ID r = aid) rows = Some r \<and> ID r = aid"
  by (induction rows) auto

lemma ExecuteStep_hit:
  assumes f1: "\<not> fails env WorkflowFindStepByInputHash []"
    and f2: "\<not> fails env ArtifactGetByID []"
    and hit: "completed_steps (ReqStepType req) (ComputeInputHash pf (Input req)) s \<noteq> []"
  shows "\<exists>r. latest_step (completed_steps (ReqStepType req) (ComputeInputHash pf (Input req)) s) = Some r
     \<and> r \<in> set (workflow_steps s) \<and> StepType r = ReqStepType req
     \<and> InputHash r = ComputeInputHash pf (Input req) \<and> Status r = StepCompleted
     \<and> ExecuteStep env pf req s =
         (Inr \<lparr> Step = r, RespArtifact = find (\<lambda>a. ID a = ArtifactID r) (artifacts s),
                Cached = True \<rparr>, s)"
proof -
  let ?t = "ReqStepType req" and ?h = "ComputeInputHash pf (Input req)"
  obtain r where r: "latest_step (completed_steps ?t ?h s) = Some r"
    using hit latest_step_Nil [of "completed_steps ?t ?h s"] by (cases "latest_step (completed_steps ?t ?h s)") auto
  have m: "r \<in> set (workflow_steps s) \<and> StepType r = ?t \<and> InputHash r = ?h \<and> Status r = StepCompleted"
    using latest_step_mem [OF r] by (rule completed_steps_mem)
  have a: "WorkflowRepository_FindStepByInputHash env [] ?t ?h s = Inr (Some r)"
    using f1 r by (simp add: WorkflowRepository_FindStepByInputHash_def)
  have b: "ArtifactRepository_GetByID env [] (ArtifactID r) s =
      Inr (find (\<lambda>a. ID a = ArtifactID r) (artifacts s))"
    using f2 by (simp add: ArtifactRepository_GetByID_def)
  have "ExecuteStep env pf req s =
         (Inr \<lparr> Step = r, RespArtifact = find (\<lambda>a. ID a = ArtifactID r) (artifacts s),
                Cached = True \<rparr>, s)"
    by (simp only: ExecuteStep_def Let_def a b sum.case option.case)
  then show ?thesis using r m by blast
qed

lemma map_update_fresh:
  "i \<notin> set (map StepID rows) \<Longrightarrow> map (\<lambda>r. if StepID r = i then f r else r) rows = rows"
  by (induction rows) auto

lemma find_ID_after_update:
  assumes "i \<in> set (map ID rows)" and "\<And>r. ID (f r) = ID r"
  shows "\<exists>r. find (\<lambda>r. ID r = i) (map (\<lambda>r. if ID r = i then f r else r) rows) = Some r \<and> ID r = i"
  using assms(1)
proof (induction rows)
  case Nil
  then show ?case by simp
next
  case (Cons r rows)
  show ?case
  proof (cases "ID r = i")
    case True
    then show ?thesis using assms(2) by simp
  next
    case False
    then have "i \<in> set (map ID rows)" using Cons.prems by auto
    then show ?thesis using Cons.IH False by simp
  qed
qed

lemma Store_artifact_ok:
  assumes nf: "no_faults env" and js: "json_like (GObj (Metadata a))"
  shows "\<exists>s1 r. ArtifactRepository_Store env pf at a s = (None, s1) \<and>
     workflow_steps s1 = workflow_steps s \<and>
     find (\<lambda>r. ID r = ID a) (artifacts s1) = Some r \<and> ID r = ID a"
proof -
  obtain d where d: "marshal (json_string pf) (GObj (Metadata a)) = Some d"
    using json_like_marshal [OF js] by blast
  have f: "\<not> fails env ArtifactStore at" using nf by (simp add: no_faults_def)
  show ?thesis
  proof (cases "ID a \<in> set (map ID (artifacts s))")
    case True
    let ?f = "\<lambda>r. r\<lparr>Type := Type a, ContentHash := ContentHash a,
                                   Content := Content a, Metadata := Metadata a,
                                   UpdatedAt := db_now env, Stale := Stale a\<rparr>"
    have "\<exists>r. find (\<lambda>r. ID r = ID a)
       (map (\<lambda>r. if ID r = ID a then ?f r else r) (artifacts s)) = Some r \<and> ID r = ID a"
      using True by (rule find_ID_after_update) simp
    then show ?thesis using True f unfolding ArtifactRepository_Store_def d by simp
  next
    case False
    have nn: "\<forall>r \<in> set (artifacts s). \<not> ID r = ID a"
      using False by (auto simp: image_iff)
    have "find (\<lambda>r. ID r = ID a) (artifacts s @ [artifact_row a]) = Some (artifact_row a)"
      using nn by (rule find_after_append) (simp add: artifact_row_def)
    then show ?thesis using False f unfolding ArtifactRepository_Store_def d
      by (simp add: artifact_row_def)
  qed
qed

lemma VectorRepository_Store_frame:
  assumes "no_faults env"
  shows "\<exists>s1. VectorRepository_Store env at aid e m s = (None, s1) \<and>
     artifacts s1 = artifacts s \<and> workflow_steps s1 = workflow_steps s"
  using assms by (simp add: VectorRepository_Store_def ensureCollection_def no_faults_def)

lemma StoreStep_ok:
  assumes nf: "no_faults env" and js: "json_like (GObj (StepMetadata step))"
    and fresh: "StepID step \<notin> set (map StepID (workflow_steps s))"
  shows "WorkflowRepository_StoreStep env pf at step s =
     (None, s\<lparr>workflow_steps := workflow_steps s @ [step]\<rparr>)"
proof -
  obtain d where d: "marshal (json_string pf) (GObj (StepMetadata step)) = Some d"
    using json_like_marshal [OF js] by blast
  have f: "\<not> fails env WorkflowStoreStep at" using nf by (simp add: no_faults_def)
  show ?thesis using f fresh unfolding WorkflowRepository_StoreStep_def d by simp
qed

lemma UpdateStep_ok:
  assumes nf: "no_faults env" and js: "json_like (GObj (StepMetadata step))"
  shows "WorkflowRepository_UpdateStep env pf at step s =
     (None, s\<lparr>workflow_steps :=
                  map (\<lambda>r. if StepID r = StepID step then step_update step r else r)
                      (workflow_steps s)\<rparr>)"
proof -
  obtain d where d: "marshal (json_string pf) (GObj (StepMetadata step)) = Some d"
    using json_like_marshal [OF js] by blast
  have f: "\<not> fails env WorkflowUpdateStep at" using nf by (simp add: no_faults_def)
  show ?thesis using f unfolding WorkflowRepository_UpdateStep_def d by simp
qed

lemma completed_steps_append:
  "workflow_steps s1 = workflow_steps s @ [r] \<Longrightarrow>
   completed_steps t h s1 =
     completed_steps t h s @
       (if StepType r = t \<and> InputHash r = h \<and> Status r = StepCompleted then [r] else [])"
  by (simp add: completed_steps_def)

lemma ExecuteStep_miss:
  assumes nf: "no_faults env"
    and miss: "completed_steps (ReqStepType req) (ComputeInputHash pf (Input req)) s = []"
    and emb: "embedding_provider env
        (''Result of '' @ ReqStepType req @ '' step with input: '' @ sprintf_v pf (Input req)) = Some e"
    and js: "json_like (GObj (ReqMetadata req))"
    and fresh: "new_uuid env 0 \<notin> set (map StepID (workflow_steps s))"
  shows "\<exists>step artifact row s1.
      ExecuteStep env pf req s =
        (Inr \<lparr> Step = step, RespArtifact = Some artifact, Cached = False \<rparr>, s1)
      \<and> workflow_steps s1 = workflow_steps s @ [step]
      \<and> StepType step = ReqStepType req
      \<and> InputHash step = ComputeInputHash pf (Input req)
      \<and> Status step = StepCompleted
      \<and> ArtifactID step = ID artifact
      \<and> find (\<lambda>a. ID a = ID artifact) (artifacts s1) = Some row \<and> ID row = ID artifact"
proof -
  let ?t = "ReqStepType req" and ?h = "ComputeInputHash pf (Input req)"
  let ?step = "\<lparr> StepID = new_uuid env 0, SessionID = ReqSessionID req,
                         StepType = ReqStepType req, ArtifactID = uuid_Nil,
                         InputHash = ?h, OutputHash = [],
                         StepMetadata = ReqMetadata req, StepCreatedAt = now env 0,
                         CompletedAt = None, Status = StepRunning \<rparr>"
  let ?content = "''Result of '' @ StepType ?step @ '' step with input: '' @ sprintf_v pf (Input req)"
  let ?art = "\<lparr> ID = new_uuid env 1, Type = step_artifact_type (StepType ?step),
                   ContentHash = ComputeContentHash pf ?content, Content = ?content,
                   Embedding = e, Dependencies = [],
                   Metadata = [(''step_type'', GStr (StepType ?step)),
                               (''step_id'', GStr (uuid_string pf (StepID ?step))),
                               (''session_id'', GStr (uuid_string pf (SessionID ?step)))],
                   CreatedAt = now env 1, UpdatedAt = now env 2, Stale = False \<rparr>"
  let ?step' = "?step\<lparr>ArtifactID := ID ?art, OutputHash := ContentHash ?art,
                                                    Status := StepCompleted,
                                                    CompletedAt := Some (now env 3)\<rparr>"
  have a: "WorkflowRepository_FindStepByInputHash env [] ?t ?h s = Inr None"
    using nf by (simp add: WorkflowRepository_FindStepByInputHash_def no_faults_def miss)
  let ?s1 = "s\<lparr>workflow_steps := workflow_steps s @ [?step]\<rparr>"
  have js0: "json_like (GObj (StepMetadata ?step))" using js by simp
  have fr0: "StepID ?step \<notin> set (map StepID (workflow_steps s))" using fresh by simp
  have b: "WorkflowRepository_StoreStep env pf [] ?step s = (None, ?s1)"
    using nf js0 fr0 by (rule StoreStep_ok)
  have c: "simulateStepExecution env pf ?step (Input req) = Inr ?art"
    using emb by (simp add: simulateStepExecution_def Let_def)
  have jsa: "json_like (GObj (Metadata ?art))" by simp
  obtain s2 row where s2: "ArtifactRepository_Store env pf [] ?art ?s1 = (None, s2)"
    and w2: "workflow_steps s2 = workflow_steps ?s1"
    and r2: "find (\<lambda>r. ID r = ID ?art) (artifacts s2) = Some row" "ID row = ID ?art"
    using Store_artifact_ok [OF nf jsa, of pf "[]" ?s1] by blast
  obtain s3 where s3: "(if length (Embedding ?art) > 0
                                   then VectorRepository_Store env [] (ID ?art)
                                          (Embedding ?art) (Metadata ?art) s2
                                   else (None, s2)) = (None, s3)"
    and a3: "artifacts s3 = artifacts s2" and w3: "workflow_steps s3 = workflow_steps s2"
    using VectorRepository_Store_frame [OF nf, of "[]" "ID ?art" "Embedding ?art" "Metadata ?art" s2]
    by (cases "length (Embedding ?art) > 0") auto
  let ?s4 = "s3\<lparr>workflow_steps :=
                  map (\<lambda>r. if StepID r = StepID ?step' then step_update ?step' r else r)
                      (workflow_steps s3)\<rparr>"
  have js1: "json_like (GObj (StepMetadata ?step'))" using js by simp
  have u: "WorkflowRepository_UpdateStep env pf [] ?step' s3 = (None, ?s4)"
    using nf js1 by (rule UpdateStep_ok)
  have run: "ExecuteStep env pf req s =
        (Inr \<lparr> Step = ?step', RespArtifact = Some ?art, Cached = False \<rparr>, ?s4)"
    by (simp only: ExecuteStep_def Let_def a b c s2 s3 u sum.case option.case prod.case)
  have w3': "workflow_steps s3 = workflow_steps s @ [?step]" using w3 w2 by simp
  have old: "map (\<lambda>r. if StepID r = new_uuid env 0 then step_update ?step' r else r)
      (workflow_steps s) = workflow_steps s"
    using fresh by (rule map_update_fresh)
  have w4: "workflow_steps ?s4 = workflow_steps s @ [?step']"
    using old by (simp add: w3' step_update_def)
  have a4: "artifacts ?s4 = artifacts s2" using a3 by simp
  have "find (\<lambda>a. ID a = ID ?art) (artifacts ?s4) = Some row" using r2(1) by (simp only: a4)
  then show ?thesis using run w4 r2(2) by (intro exI [of _ ?step'] exI [of _ ?art] exI [of _ row] exI [of _ ?s4]) simp
qed

lemma ExecuteStep_twice:
  assumes nf1: "no_faults env1" and nf2: "no_faults env2"
    and miss: "completed_steps (ReqStepType req) (ComputeInputHash pf (Input req)) s = []"
    and emb: "embedding_provider env1
        (''Result of '' @ ReqStepType req @ '' step with input: '' @ sprintf_v pf (Input req)) = Some e"
    and js: "json_like (GObj (ReqMetadata req))"
    and fresh: "new_uuid env1 0 \<notin> set (map StepID (workflow_steps s))"
    and same: "ReqStepType req' = ReqStepType req" "Input req' = Input req"
  shows "\<exists>step a1 a2 s1.
      ExecuteStep env1 pf req s = (Inr \<lparr> Step = step, RespArtifact = Some a1, Cached = False \<rparr>, s1)
      \<and> ExecuteStep env2 pf req' s1 = (Inr \<lparr> Step = step, RespArtifact = Some a2, Cached = True \<rparr>, s1)
      \<and> ID a2 = ID a1 \<and> ArtifactID step = ID a1
      \<and> workflow_steps s1 = workflow_steps s @ [step]"
proof -
  let ?t = "ReqStepType req" and ?h = "ComputeInputHash pf (Input req)"
  obtain step a1 row s1 where
    first: "ExecuteStep env1 pf req s =
        (Inr \<lparr> Step = step, RespArtifact = Some a1, Cached = False \<rparr>, s1)"
    and w: "workflow_steps s1 = workflow_steps s @ [step]"
    and k: "StepType step = ?t" "InputHash step = ?h" "Status step = StepCompleted"
    and l: "ArtifactID step = ID a1"
    and r: "find (\<lambda>a. ID a = ID a1) (artifacts s1) = Some row" "ID row = ID a1"
    using ExecuteStep_miss [OF nf1 miss emb js fresh] by blast
  have cs: "completed_steps ?t ?h s1 = [step]"
    using completed_steps_append [OF w, of ?t ?h] miss k by simp
  have f1: "\<not> fails env2 WorkflowFindStepByInputHash []" and f2: "\<not> fails env2 ArtifactGetByID []"
    using nf2 by (simp_all add: no_faults_def)
  have hit: "completed_steps (ReqStepType req') (ComputeInputHash pf (Input req')) s1 \<noteq> []"
    using cs same by simp
  obtain r' where r': "latest_step (completed_steps (ReqStepType req') (ComputeInputHash pf (Input req')) s1) = Some r'"
    and second: "ExecuteStep env2 pf req' s1 =
         (Inr \<lparr> Step = r', RespArtifact = find (\<lambda>a. ID a = ArtifactID r') (artifacts s1),
                Cached = True \<rparr>, s1)"
    using ExecuteStep_hit [OF f1 f2 hit] by blast
  have "r' = step" using r' cs same by simp
  then have "ExecuteStep env2 pf req' s1 = (Inr \<lparr> Step = step, RespArtifact = Some row, Cached = True \<rparr>, s1)"
    using second r(1) l by simp
  then show ?thesis using first r(2) l w by blast
qed

text \<open>
  C9. When the step index finds a completed step for the step type and the input hash and
  the artifact the step links to is no longer in the artifact store, ExecuteStep returns
  without error the found step, no artifact and \<open>cached = true\<close>, and leaves the store as
  it was: the step is not executed again and no step row is added.
\<close>

theorem ExecuteStep_artifact_deleted:
  assumes f1: "\<not> fails env WorkflowFindStepByInputHash []"
    and f2: "\<not> fails env ArtifactGetByID []"
    and hit: "latest_step (completed_steps (ReqStepType req) (ComputeInputHash pf (Input req)) s) = Some r"
    and gone: "ArtifactID r \<notin> set (map ID (artifacts s))"
  shows "ExecuteStep env pf req s = (Inr \<lparr> Step = r, RespArtifact = None, Cached = True \<rparr>, s)"
proof -
  have ne: "completed_steps (ReqStepType req) (ComputeInputHash pf (Input req)) s \<noteq> []"
    using hit by auto
  obtain r' where r': "latest_step (completed_steps (ReqStepType req) (ComputeInputHash pf (Input req)) s) = Some r'"
    and run: "ExecuteStep env pf req s =
         (Inr \<lparr> Step = r', RespArtifact = find (\<lambda>a. ID a = ArtifactID r') (artifacts s),
                Cached = True \<rparr>, s)"
    using ExecuteStep_hit [OF f1 f2 ne] by blast
  have e: "r' = r" using r' hit by simp
  have "\<forall>a \<in> set (artifacts s). \<not> ID a = ArtifactID r" using gone by (auto simp: image_iff)
  then have "find (\<lambda>a. ID a = ArtifactID r) (artifacts s) = None" by (simp add: find_None_iff)
  then show ?thesis using run e by simp
qed

lemma steps_extend_refl: "steps_extend i s s"
  by (simp add: steps_extend_def)

lemma steps_extend_same:
  "steps_extend i s s1 \<Longrightarrow> workflow_steps s2 = workflow_steps s1 \<Longrightarrow> steps_extend i s s2"
  by (simp add: steps_extend_def)

lemma steps_Store: "workflow_steps (snd (ArtifactRepository_Store env pf at a s)) = workflow_steps s"
  by (simp add: ArtifactRepository_Store_def split: option.splits)

lemma steps_VectorStore:
  "workflow_steps (snd (VectorRepository_Store env at aid e m s)) = workflow_steps s"
  by (simp add: VectorRepository_Store_def ensureCollection_def split: prod.splits option.splits if_splits)

lemma StepID_step_update: "StepID (step_update step r) = StepID r"
  by (simp add: step_update_def)

lemma map_update_new:
  "list_all (\<lambda>r. StepID r = i) new \<Longrightarrow>
     list_all (\<lambda>r. StepID r = i) (map (\<lambda>r. if StepID r = i then step_update step r else r) new)"
  by (induction new) (simp_all add: StepID_step_update)

lemma steps_extend_UpdateStep:
  assumes ext: "steps_extend i s s1" and fresh: "i \<notin> set (map StepID (workflow_steps s))"
    and sid: "StepID step = i"
  shows "steps_extend i s (snd (WorkflowRepository_UpdateStep env pf at step s1))"
proof -
  obtain new where w: "workflow_steps s1 = workflow_steps s @ new"
    and n: "list_all (\<lambda>r. StepID r = i) new"
    using ext unfolding steps_extend_def by blast
  let ?u = "\<lambda>r. if StepID r = i then step_update step r else r"
  have old: "map ?u (workflow_steps s) = workflow_steps s" using fresh by (rule map_update_fresh)
  have "workflow_steps (snd (WorkflowRepository_UpdateStep env pf at step s1)) = workflow_steps s1
      \<or> workflow_steps (snd (WorkflowRepository_UpdateStep env pf at step s1)) =
          map ?u (workflow_steps s1)"
    by (simp add: WorkflowRepository_UpdateStep_def sid split: option.splits)
  then show ?thesis
  proof
    assume "workflow_steps (snd (WorkflowRepository_UpdateStep env pf at step s1)) = workflow_steps s1"
    then show ?thesis using ext by (simp add: steps_extend_def)
  next
    assume "workflow_steps (snd (WorkflowRepository_UpdateStep env pf at step s1)) =
          map ?u (workflow_steps s1)"
    then have "workflow_steps (snd (WorkflowRepository_UpdateStep env pf at step s1)) =
          workflow_steps s @ map ?u new"
      by (simp only: w map_append old)
    then show ?thesis using map_update_new [OF n] unfolding steps_extend_def by blast
  qed
qed

lemma steps_extend_StoreStep:
  assumes fresh: "StepID step \<notin> set (map StepID (workflow_steps s))"
  shows "steps_extend (StepID step) s (snd (WorkflowRepository_StoreStep env pf at step s))"
  using fresh by (simp add: WorkflowRepository_StoreStep_def steps_extend_def split: option.splits)

lemma steps_extend_ExecuteStep:
  assumes fresh: "new_uuid env 0 \<notin> set (map StepID (workflow_steps s))"
  shows "steps_extend (new_uuid env 0) s (snd (ExecuteStep env pf req s))"
proof -
  let ?i = "new_uuid env 0"
  let ?t = "ReqStepType req" and ?h = "ComputeInputHash pf (Input req)"
  let ?step = "\<lparr> StepID = new_uuid env 0, SessionID = ReqSessionID req,
                         StepType = ReqStepType req, ArtifactID = uuid_Nil,
                         InputHash = ?h, OutputHash = [],
                         StepMetadata = ReqMetadata req, StepCreatedAt = now env 0,
                         CompletedAt = None, Status = StepRunning \<rparr>"
  show ?thesis
  proof (cases "WorkflowRepository_FindStepByInputHash env [] ?t ?h s")
    case (Inl err)
    have "snd (ExecuteStep env pf req s) = s"
      by (simp only: ExecuteStep_def Let_def Inl sum.case snd_conv)
    then show ?thesis by (simp only: steps_extend_refl)
  next
    case (Inr found)
    show ?thesis
    proof (cases found)
      case (Some cachedStep)
      have "snd (ExecuteStep env pf req s) = s"
        by (cases "ArtifactRepository_GetByID env [] (ArtifactID cachedStep) s")
          (simp_all only: ExecuteStep_def Let_def Inr Some sum.case option.case snd_conv)
      then show ?thesis by (simp only: steps_extend_refl)
    next
      case None
      obtain e1 s1 where st: "WorkflowRepository_StoreStep env pf [] ?step s = (e1, s1)"
        by (metis surj_pair)
      have fr: "StepID ?step \<notin> set (map StepID (workflow_steps s))" using fresh by simp
      have "steps_extend (StepID ?step) s (snd (WorkflowRepository_StoreStep env pf [] ?step s))"
        using fr by (rule steps_extend_StoreStep)
      then have x1: "steps_extend ?i s s1" by (simp add: st)
      show ?thesis
      proof (cases e1)
        case (Some err)
        have "snd (ExecuteStep env pf req s) = s1"
          by (simp only: ExecuteStep_def Let_def Inr None st Some sum.case option.case
              prod.case snd_conv)
        then show ?thesis using x1 by simp
      next
        case e1: None
        show ?thesis
        proof (cases "simulateStepExecution env pf ?step (Input req)")
          case (Inl err)
          have "snd (ExecuteStep env pf req s) =
              snd (WorkflowRepository_UpdateStep env pf [] (?step\<lparr>Status := StepFailed\<rparr>) s1)"
            by (simp only: ExecuteStep_def Let_def Inr None st e1 Inl sum.case option.case
                prod.case snd_conv)
          moreover have "steps_extend ?i s
              (snd (WorkflowRepository_UpdateStep env pf [] (?step\<lparr>Status := StepFailed\<rparr>) s1))"
            using x1 fresh by (rule steps_extend_UpdateStep) simp
          ultimately show ?thesis by simp
        next
          case sim: (Inr art)
          obtain e2 s2 where as: "ArtifactRepository_Store env pf [] art s1 = (e2, s2)"
            by (metis surj_pair)
          have "workflow_steps (snd (ArtifactRepository_Store env pf [] art s1)) = workflow_steps s1"
            by (rule steps_Store)
          then have w2: "workflow_steps s2 = workflow_steps s1" by (simp add: as)
          have x2: "steps_extend ?i s s2" using x1 w2 by (rule steps_extend_same)
          show ?thesis
          proof (cases e2)
            case (Some err)
            have "snd (ExecuteStep env pf req s) = s2"
              by (simp only: ExecuteStep_def Let_def Inr None st e1 sim as Some sum.case
                  option.case prod.case snd_conv)
            then show ?thesis using x2 by simp
          next
            case e2: None
            obtain e3 s3 where vs: "(if length (Embedding art) > 0
                                   then VectorRepository_Store env [] (ID art)
                                          (Embedding art) (Metadata art) s2
                                   else (None, s2)) = (e3, s3)"
              by (metis surj_pair)
            have w3: "workflow_steps s3 = workflow_steps s2"
            proof (cases "length (Embedding art) > 0")
              case True
              then have "s3 = snd (VectorRepository_Store env [] (ID art)
                                          (Embedding art) (Metadata art) s2)"
                using vs by simp
              then show ?thesis by (simp only: steps_VectorStore)
            next
              case False
              then show ?thesis using vs by simp
            qed
            have x3: "steps_extend ?i s s3" using x2 w3 by (rule steps_extend_same)
            show ?thesis
            proof (cases e3)
              case (Some err)
              have "snd (ExecuteStep env pf req s) = s3"
                by (simp only: ExecuteStep_def Let_def Inr None st e1 sim as e2 vs Some sum.case
                    option.case prod.case snd_conv)
              then show ?thesis using x3 by simp
            next
              case e3: None
              let ?step' = "?step\<lparr>ArtifactID := ID art, OutputHash := ContentHash art,
                                                    Status := StepCompleted,
                                                    CompletedAt := Some (now env 3)\<rparr>"
              obtain e4 s4 where us: "WorkflowRepository_UpdateStep env pf [] ?step' s3 = (e4, s4)"
                by (metis surj_pair)
              have "steps_extend ?i s (snd (WorkflowRepository_UpdateStep env pf [] ?step' s3))"
                using x3 fresh by (rule steps_extend_UpdateStep) simp
              then have x4: "steps_extend ?i s s4" by (simp only: us snd_conv)
              have "snd (ExecuteStep env pf req s) = s4"
                by (cases e4)
                  (simp_all only: ExecuteStep_def Let_def Inr None st e1 sim as e2 vs e3 us
                    sum.case option.case prod.case snd_conv)
              then show ?thesis using x4 by simp
            qed
          qed
        qed
      qed
    qed
  qed
qed

lemma steps_CreateSession: "workflow_steps (snd (CreateSession env pf goal ctx s)) = workflow_steps s"
  by (simp add: CreateSession_def WorkflowRepository_StoreSession_def Let_def split: option.splits)

lemma steps_UpdateSession:
  "workflow_steps (snd (WorkflowRepository_UpdateSession env pf at session s)) = workflow_steps s"
  by (simp add: WorkflowRepository_UpdateSession_def split: option.splits)

lemma steps_CompleteSession: "workflow_steps (snd (CompleteSession env pf sid s)) = workflow_steps s"
  by (simp add: CompleteSession_def steps_UpdateSession split: sum.splits option.splits)

lemma steps_FailSession: "workflow_steps (snd (FailSession env pf sid reason s)) = workflow_steps s"
  by (simp add: FailSession_def steps_UpdateSession split: sum.splits option.splits)

lemma run_op_prefix:
  assumes "fresh_step_id env op s"
  shows "\<exists>new. workflow_steps (run_op pf fo env op s) = workflow_steps s @ new"
proof (cases op)
  case (OpExecuteStep req)
  have "new_uuid env 0 \<notin> set (map StepID (workflow_steps s))"
    using assms OpExecuteStep by simp
  then have "steps_extend (new_uuid env 0) s (snd (ExecuteStep env pf req s))"
    by (rule steps_extend_ExecuteStep)
  then show ?thesis unfolding steps_extend_def using OpExecuteStep by auto
qed (simp_all add: steps_CreateSession steps_CompleteSession steps_FailSession)

lemma run_prefix:
  "fresh_run pf fo ops s \<Longrightarrow> \<exists>new. workflow_steps (run pf fo ops s) = workflow_steps s @ new"
proof (induction ops arbitrary: s)
  case Nil
  then show ?case by simp
next
  case (Cons x ops)
  obtain env op where x: "x = (env, op)" by (cases x)
  have f1: "fresh_step_id env op s" and f2: "fresh_run pf fo ops (run_op pf fo env op s)"
    using Cons.prems x by simp_all
  obtain n1 where n1: "workflow_steps (run_op pf fo env op s) = workflow_steps s @ n1"
    using run_op_prefix [OF f1] by blast
  obtain n2 where "workflow_steps (run pf fo ops (run_op pf fo env op s)) =
      workflow_steps (run_op pf fo env op s) @ n2"
    using Cons.IH [OF f2] by blast
  then have "workflow_steps (run pf fo (x # ops) s) = workflow_steps s @ (n1 @ n2)"
    using n1 x by simp
  then show ?case by blast
qed

lemma run_append: "run pf fo (ops1 @ ops2) s = run pf fo ops2 (run pf fo ops1 s)"
  by (induction ops1 arbitrary: s) auto

lemma fresh_run_append:
  "fresh_run pf fo (ops1 @ ops2) s \<Longrightarrow> fresh_run pf fo ops2 (run pf fo ops1 s)"
  by (induction ops1 arbitrary: s) auto

text \<open>
  C7. Along every run of operations of the workflow service in which \<open>uuid.New()\<close> gives
  each new step an id that is not in use, whatever calls fail: a step row that is completed
  or failed at some point of the run is the same row, with the same status, at every later
  point. (No operation changes a stored step row but the ExecuteStep that created it.)
\<close>

theorem step_status_monotonic:
  assumes fresh: "fresh_run pf fo (ops1 @ ops2) s"
    and i: "i < length (workflow_steps (run pf fo ops1 s))"
    and t: "terminal (Status (workflow_steps (run pf fo ops1 s) ! i))"
  shows "i < length (workflow_steps (run pf fo (ops1 @ ops2) s)) \<and>
     workflow_steps (run pf fo (ops1 @ ops2) s) ! i = workflow_steps (run pf fo ops1 s) ! i \<and>
     Status (workflow_steps (run pf fo (ops1 @ ops2) s) ! i) =
       Status (workflow_steps (run pf fo ops1 s) ! i)"
proof -
  obtain new where "workflow_steps (run pf fo ops2 (run pf fo ops1 s)) =
      workflow_steps (run pf fo ops1 s) @ new"
    using run_prefix [OF fresh_run_append [OF fresh]] by blast
  then have "workflow_steps (run pf fo (ops1 @ ops2) s) = workflow_steps (run pf fo ops1 s) @ new"
    by (simp only: run_append)
  then show ?thesis using i by (simp add: nth_append)
qed

lemma test_env_no_faults: "no_faults test_env"
  by (simp add: no_faults_def test_env_def)

lemma scrape_first:
  "\<exists>step a1 a2 s1.
      ExecuteStep test_env test_platform scrape_request empty_store =
        (Inr \<lparr> Step = step, RespArtifact = Some a1, Cached = False \<rparr>, s1)
      \<and> ExecuteStep test_env test_platform scrape_request s1 =
        (Inr \<lparr> Step = step, RespArtifact = Some a2, Cached = True \<rparr>, s1)
      \<and> ID a2 = ID a1 \<and> ArtifactID step = ID a1
      \<and> workflow_steps s1 = workflow_steps empty_store @ [step]"
proof (rule ExecuteStep_twice [OF test_env_no_faults test_env_no_faults])
  show "completed_steps (ReqStepType scrape_request)
      (ComputeInputHash test_platform (Input scrape_request)) empty_store = []"
    by (simp add: completed_steps_def empty_store_def)
  show "embedding_provider test_env
        (''Result of '' @ ReqStepType scrape_request @ '' step with input: '' @
          sprintf_v test_platform (Input scrape_request)) = Some [1]"
    by (simp add: test_env_def)
  show "json_like (GObj (ReqMetadata scrape_request))" by (simp add: scrape_request_def)
  show "new_uuid test_env 0 \<notin> set (map StepID (workflow_steps empty_store))"
    by (simp add: empty_store_def)
qed simp_all







theorem ExecuteStep_artifact_deleted_witness:
  "\<not> fails test_env WorkflowFindStepByInputHash [] \<and> \<not> fails test_env ArtifactGetByID [] \<and>
   artifacts orphan_store = [] \<and>
   map (\<lambda>r. (StepID r, StepType r, ArtifactID r, Status r)) (workflow_steps orphan_store) =
     [(1, ''scrape'', 9, StepCompleted)] \<and>
   response_summary (fst (ExecuteStep test_env test_platform scrape_request orphan_store)) =
     Inr (True, StepCompleted, 9, None) \<and>
   snd (ExecuteStep test_env test_platform scrape_request orphan_store) = orphan_store"
proof -
  let ?r = "\<lparr> StepID = 1, SessionID = 5, StepType = ''scrape'', ArtifactID = 9,
          InputHash = ComputeInputHash test_platform (GStr ''https://example.com/a''),
          OutputHash = ''o'', StepMetadata = [], StepCreatedAt = 1, CompletedAt = Some 2,
          Status = StepCompleted \<rparr>"
  have f1: "\<not> fails test_env WorkflowFindStepByInputHash []"
    and f2: "\<not> fails test_env ArtifactGetByID []"
    by (simp_all add: test_env_def)
  have hit: "latest_step (completed_steps (ReqStepType scrape_request)
      (ComputeInputHash test_platform (Input scrape_request)) orphan_store) = Some ?r"
    by (simp add: completed_steps_def orphan_store_def scrape_request_def empty_store_def)
  have gone: "ArtifactID ?r \<notin> set (map ID (artifacts orphan_store))"
    by (simp add: orphan_store_def empty_store_def)
  have run: "ExecuteStep test_env test_platform scrape_request orphan_store =
      (Inr \<lparr> Step = ?r, RespArtifact = None, Cached = True \<rparr>, orphan_store)"
    using ExecuteStep_artifact_deleted [OF f1 f2 hit gone] .
  show ?thesis using f1 f2
    by (simp add: run response_summary_def) (simp add: orphan_store_def empty_store_def)
qed

lemma executed_store_eq:
  "executed_store =
     \<lparr> artifacts =
         [\<lparr> ID = 101, Type = ''RAW'',
            ContentHash = ComputeContentHash test_platform
              (''Result of scrape step with input: '' @ sprintf_v test_platform (GStr ''https://example.com/a'')),
            Content = ''Result of scrape step with input: '' @
              sprintf_v test_platform (GStr ''https://example.com/a''),
            Embedding = [], Dependencies = [],
            Metadata = [(''step_type'', GStr ''scrape''),
                        (''step_id'', GStr (uuid_string test_platform 100)),
                        (''session_id'', GStr (uuid_string test_platform 5))],
            CreatedAt = 1001, UpdatedAt = 1002, Stale = False \<rparr>],
       artifact_dependencies = [], workflow_sessions = [],
       workflow_steps =
         [\<lparr> StepID = 100, SessionID = 5, StepType = ''scrape'', ArtifactID = 101,
            InputHash = ComputeInputHash test_platform (GStr ''https://example.com/a''),
            OutputHash = ComputeContentHash test_platform
              (''Result of scrape step with input: '' @ sprintf_v test_platform (GStr ''https://example.com/a'')),
            StepMetadata = [], StepCreatedAt = 1000, CompletedAt = Some 1003,
            Status = StepCompleted \<rparr>],
       collection_exists = True,
       points = [\<lparr> pid = 101, vector = [1],
                   payload = [(''step_type'', GStr ''scrape''),
                        (''step_id'', GStr (uuid_string test_platform 100)),
                        (''session_id'', GStr (uuid_string test_platform 5))] \<rparr>] \<rparr>"
  by (simp add: executed_store_def ExecuteStep_def Let_def scrape_request_def empty_store_def
      WorkflowRepository_FindStepByInputHash_def completed_steps_def test_env_def
      WorkflowRepository_StoreStep_def simulateStepExecution_def
      test_platform_def [THEN arg_cong, of json_string]
      ArtifactRepository_Store_def artifact_row_def VectorRepository_Store_def
      ensureCollection_def qdrant_upsert_def WorkflowRepository_UpdateStep_def step_update_def
      uuid_Nil_def step_artifact_type_def)

lemma run_ops1: "run test_platform test_floatops test_ops1 empty_store = executed_store"
  by (simp add: test_ops1_def executed_store_def)

lemma run_ops2_steps:
  "map (\<lambda>r. (StepID r, Status r)) (workflow_steps (run test_platform test_floatops test_ops2 executed_store)) =
     [(100, StepCompleted), (200, StepRunning)]"
  by (simp add: test_ops2_def executed_store_eq ExecuteStep_def Let_def process_request_def
      WorkflowRepository_FindStepByInputHash_def completed_steps_def other_env_def test_env_def
      WorkflowRepository_StoreStep_def simulateStepExecution_def
      test_platform_def [THEN arg_cong, of json_string]
      ArtifactRepository_Store_def FailSession_def WorkflowRepository_GetSession_def)

theorem step_status_monotonic_witness:
  "fresh_run test_platform test_floatops (test_ops1 @ test_ops2) empty_store \<and>
   map (\<lambda>r. (StepID r, Status r))
     (workflow_steps (run test_platform test_floatops test_ops1 empty_store)) =
     [(100, StepCompleted)] \<and>
   map (\<lambda>r. (StepID r, Status r))
     (workflow_steps (run test_platform test_floatops (test_ops1 @ test_ops2) empty_store)) =
     [(100, StepCompleted), (200, StepRunning)] \<and>
   workflow_steps (run test_platform test_floatops (test_ops1 @ test_ops2) empty_store) ! 0 =
     workflow_steps (run test_platform test_floatops test_ops1 empty_store) ! 0"
proof -
  have fr: "fresh_run test_platform test_floatops (test_ops1 @ test_ops2) empty_store"
    by (simp add: test_ops1_def test_ops2_def executed_store_def [symmetric])
      (simp add: executed_store_eq other_env_def test_env_def empty_store_def)
  have a: "map (\<lambda>r. (StepID r, Status r))
     (workflow_steps (run test_platform test_floatops test_ops1 empty_store)) =
     [(100, StepCompleted)]"
    by (simp add: run_ops1 executed_store_eq)
  have b: "map (\<lambda>r. (StepID r, Status r))
     (workflow_steps (run test_platform test_floatops (test_ops1 @ test_ops2) empty_store)) =
     [(100, StepCompleted), (200, StepRunning)]"
    by (simp only: run_append run_ops1 run_ops2_steps)
  have i: "0 < length (workflow_steps (run test_platform test_floatops test_ops1 empty_store))"
    by (simp add: run_ops1 executed_store_eq)
  have t: "terminal (Status (workflow_steps (run test_platform test_floatops test_ops1 empty_store) ! 0))"
    by (simp add: run_ops1 executed_store_eq terminal_def)
  show ?thesis using step_status_monotonic [OF fr i t] fr a b by blast
qed

section \<open>Properties of the mock embedding provider\<close>

lemma dropWhile_unchanged: "xs = [] \<or> \<not> P (hd xs) \<Longrightarrow> dropWhile P xs = xs"
  by (cases xs) auto

lemma dropWhile_head: "dropWhile P xs = [] \<or> \<not> P (hd (dropWhile P xs))"
  using hd_dropWhile [of P xs] by blast

lemma trim_right_prefix: "\<exists>w. xs = rev (dropWhile P (rev xs)) @ w"
proof -
  have "rev xs = takeWhile P (rev xs) @ dropWhile P (rev xs)" by simp
  then have "rev (rev xs) = rev (takeWhile P (rev xs) @ dropWhile P (rev xs))" by (simp only:)
  then have "xs = rev (dropWhile P (rev xs)) @ rev (takeWhile P (rev xs))"
    by (simp only: rev_rev_ident rev_append)
  then show ?thesis by blast
qed

lemma trim_right_head:
  assumes "xs = [] \<or> \<not> P (hd xs)"
  shows "rev (dropWhile P (rev xs)) = [] \<or> \<not> P (hd (rev (dropWhile P (rev xs))))"
proof (cases "rev (dropWhile P (rev xs)) = []")
  case True
  then show ?thesis by simp
next
  case False
  obtain w where w: "xs = rev (dropWhile P (rev xs)) @ w" using trim_right_prefix by blast
  have "hd xs = hd (rev (dropWhile P (rev xs)))"
    using False by (subst w) simp
  moreover have "xs \<noteq> []" using False w by auto
  ultimately show ?thesis using assms by simp
qed

lemma TrimSpace_idem: "TrimSpace (TrimSpace s) = TrimSpace s"
proof -
  let ?ys = "dropWhile is_space s"
  let ?zs = "rev (dropWhile is_space (rev ?ys))"
  have h1: "?ys = [] \<or> \<not> is_space (hd ?ys)" by (rule dropWhile_head)
  have h2: "?zs = [] \<or> \<not> is_space (hd ?zs)" using h1 by (rule trim_right_head)
  have a: "dropWhile is_space ?zs = ?zs" using h2 by (rule dropWhile_unchanged)
  have b: "dropWhile is_space (rev ?zs) = rev ?zs"
    unfolding rev_rev_ident by (rule dropWhile_idem)
  have "TrimSpace (TrimSpace s) = rev (dropWhile is_space (rev (dropWhile is_space ?zs)))"
    by (simp only: TrimSpace_def)
  also have "\<dots> = rev (dropWhile is_space (rev ?zs))" by (simp only: a)
  also have "\<dots> = rev (rev ?zs)" by (simp only: b)
  also have "\<dots> = TrimSpace s" by (simp only: rev_rev_ident TrimSpace_def)
  finally show ?thesis .
qed

lemma TrimSpace_map:
  assumes "\<And>r. is_space (f r) = is_space r"
  shows "TrimSpace (map f s) = map f (TrimSpace s)"
proof -
  have c: "is_space \<circ> f = is_space" using assms by (simp add: fun_eq_iff)
  have d: "\<And>xs. dropWhile is_space (map f xs) = map f (dropWhile is_space xs)"
    by (simp only: dropWhile_map c)
  show ?thesis by (simp only: TrimSpace_def d rev_map)
qed

lemma normalize_text_idem:
  assumes idem: "\<And>r. lower_rune pf (lower_rune pf r) = lower_rune pf r"
    and sp: "\<And>r. is_space (lower_rune pf r) = is_space r"
  shows "ToLower pf (TrimSpace (ToLower pf (TrimSpace s))) = ToLower pf (TrimSpace s)"
proof -
  have "TrimSpace (ToLower pf (TrimSpace s)) = ToLower pf (TrimSpace (TrimSpace s))"
    unfolding ToLower_def using sp by (rule TrimSpace_map)
  then have "ToLower pf (TrimSpace (ToLower pf (TrimSpace s))) = ToLower pf (ToLower pf (TrimSpace s))"
    by (simp only: TrimSpace_idem)
  also have "\<dots> = ToLower pf (TrimSpace s)"
    by (simp add: ToLower_def idem)
  finally show ?thesis .
qed

lemma length_normalizeEmbedding: "length (normalizeEmbedding fo e) = length e"
  by (simp add: normalizeEmbedding_def Let_def)

lemma length_createEmbedding: "length (createEmbedding fo pf s) = 1536"
  by (simp add: createEmbedding_def Let_def length_normalizeEmbedding)

lemma createEmbedding_normal:
  assumes "ToLower pf (TrimSpace s) = ToLower pf (TrimSpace t)"
  shows "createEmbedding fo pf s = createEmbedding fo pf t"
  by (simp only: createEmbedding_def assms)

lemma test_lower_idem: "lower_rune test_platform (lower_rune test_platform r) = lower_rune test_platform r"
  by (simp add: lower_rune_def test_platform_def)

lemma test_lower_space: "is_space (lower_rune test_platform r) = is_space r"
  by (auto simp: is_space_def lower_rune_def test_platform_def)

text \<open>
  C10. The mock provider is invariant under letter case and surrounding white space: when
  \<open>unicode.ToLower\<close> is idempotent and maps no character to or from white space, the
  embedding of a text is the embedding of its lower-cased, trimmed form (trimming and
  lower-casing commute), it has 1536 elements, two texts with the same form have the same
  embedding, and \<open>GenerateEmbeddings\<close> returns the embedding of each text, in order.
\<close>

theorem mock_embedding_normalized:
  assumes idem: "\<And>r. lower_rune pf (lower_rune pf r) = lower_rune pf r"
    and sp: "\<And>r. is_space (lower_rune pf r) = is_space r"
  shows "GenerateEmbedding fo pf s = GenerateEmbedding fo pf (ToLower pf (TrimSpace s))
     \<and> TrimSpace (ToLower pf s) = ToLower pf (TrimSpace s)
     \<and> (\<exists>v. GenerateEmbedding fo pf s = Inr v \<and> length v = 1536)
     \<and> (ToLower pf (TrimSpace s) = ToLower pf (TrimSpace t) \<longrightarrow>
          GenerateEmbedding fo pf s = GenerateEmbedding fo pf t)
     \<and> (\<exists>vs. GenerateEmbeddings fo pf texts = Inr vs \<and> length vs = length texts \<and>
          (\<forall>i < length texts. GenerateEmbedding fo pf (texts ! i) = Inr (vs ! i)))"
proof (intro conjI impI)
  have n: "ToLower pf (TrimSpace (ToLower pf (TrimSpace s))) = ToLower pf (TrimSpace s)"
    using idem sp by (rule normalize_text_idem)
  have "createEmbedding fo pf s = createEmbedding fo pf (ToLower pf (TrimSpace s))"
    using n [symmetric] by (rule createEmbedding_normal)
  then show "GenerateEmbedding fo pf s = GenerateEmbedding fo pf (ToLower pf (TrimSpace s))"
    by (simp only: GenerateEmbedding_def)
  show "TrimSpace (ToLower pf s) = ToLower pf (TrimSpace s)"
    unfolding ToLower_def using sp by (rule TrimSpace_map)
  show "\<exists>v. GenerateEmbedding fo pf s = Inr v \<and> length v = 1536"
    by (simp add: GenerateEmbedding_def length_createEmbedding)
  show "\<exists>vs. GenerateEmbeddings fo pf texts = Inr vs \<and> length vs = length texts \<and>
          (\<forall>i < length texts. GenerateEmbedding fo pf (texts ! i) = Inr (vs ! i))"
    by (simp add: GenerateEmbeddings_def GenerateEmbedding_def)
next
  assume "ToLower pf (TrimSpace s) = ToLower pf (TrimSpace t)"
  then have "createEmbedding fo pf s = createEmbedding fo pf t" by (rule createEmbedding_normal)
  then show "GenerateEmbedding fo pf s = GenerateEmbedding fo pf t"
    by (simp only: GenerateEmbedding_def)
qed

theorem mock_embedding_normalized_witness:
  "ToLower test_platform (TrimSpace [32, 72, 201, 9]) = [104, 233] \<and>
   GenerateEmbedding test_floatops test_platform [32, 72, 201, 9] =
     GenerateEmbedding test_floatops test_platform [104, 233] \<and>
   GenerateEmbedding test_floatops test_platform [104, 233, 10] =
     GenerateEmbedding test_floatops test_platform [32, 72, 201, 9]"
proof -
  have a: "ToLower test_platform (TrimSpace [32, 72, 201, 9]) = [104, 233]"
    by (simp add: ToLower_def TrimSpace_def is_space_def lower_rune_def test_platform_def)
  have b: "ToLower test_platform (TrimSpace [104, 233, 10]) = [104, 233]"
    by (simp add: ToLower_def TrimSpace_def is_space_def lower_rune_def test_platform_def)
  have c: "ToLower test_platform (TrimSpace [104, 233, 10]) =
      ToLower test_platform (TrimSpace [32, 72, 201, 9])"
    by (simp only: a b)
  show ?thesis
    using mock_embedding_normalized [where pf = test_platform and fo = test_floatops
        and s = "[32, 72, 201, 9]" and t = "[104, 233, 10]" and texts = "[]",
        OF test_lower_idem test_lower_space]
      mock_embedding_normalized [where pf = test_platform and fo = test_floatops
        and s = "[104, 233, 10]" and t = "[32, 72, 201, 9]" and texts = "[]",
        OF test_lower_idem test_lower_space]
      a c
    by simp
qed

end
